theory Spec2Isabelle
  imports Complex_Main "HOL-Library.Word" "HOL-Library.Log_Nat" "HOL-Library.Multiset"
    "HOL-Library.Sublist"
begin

text \<open>
  The collector of the Prometheus exporter for lnd (\<^verbatim>\<open>collector.go\<close>): the constructor
  \<^verbatim>\<open>NewLightningExporter\<close> with its catalog of descriptors, \<^verbatim>\<open>Describe\<close>,
  \<^verbatim>\<open>getGrpcClient\<close> and \<^verbatim>\<open>Collect\<close>. A scrape is modelled by the trace of what it
  does to the outside (the mutex, the connection, the calls to the node, the samples sent into
  the channel, the log) together with the way it ends; the files, the dialer and the answers of
  the node are its input.
\<close>

section \<open>Numbers of the exporter\<close>

text \<open>
  Go's \<^verbatim>\<open>int64\<close>, \<^verbatim>\<open>uint64\<close> and \<^verbatim>\<open>uint32\<close> are words; \<open>sint\<close> reads an
  \<^verbatim>\<open>int64\<close>, \<open>uint\<close> an unsigned value. The collector does no integer arithmetic: every
  number is converted to \<^verbatim>\<open>float64\<close> or printed in decimal.
\<close>

type_synonym int64 = "64 word"
type_synonym uint64 = "64 word"
type_synonym uint32 = "32 word"

text \<open>
  A finite \<^verbatim>\<open>float64\<close> is the rational it denotes. Every operation of the collector
  (conversion from an integer, subtraction, division by a positive number) rounds its exact
  result to the nearest number with a 53-bit significand, ties to the even significand
  (IEEE 754 binary64, as Go's conversions and operators do). The values that occur are 0 or
  of magnitude between \<open>2\<^sup>-\<^sup>6\<^sup>4\<close> and \<open>2\<^sup>6\<^sup>4\<close>, far from the subnormal and the
  overflow range, which the model leaves out.
\<close>

type_synonym float64 = rat

definition roundEven :: "rat \<Rightarrow> int" where
  "roundEven x =
     (let f = \<lfloor>x\<rfloor>; d = x - of_int f
      in if d < 1 / 2 then f
         else if 1 / 2 < d then f + 1
         else if even f then f else f + 1)"

definition floor_log2 :: "rat \<Rightarrow> int" where
  \<comment> \<open>for \<open>0 < x\<close>: the \<open>e\<close> with \<open>2\<^sup>e \<le> x < 2\<^sup>e\<^sup>+\<^sup>1\<close>\<close>
  "floor_log2 x = (if 1 \<le> x then bitlen \<lfloor>x\<rfloor> - 1 else - bitlen (\<lceil>1 / x\<rceil> - 1))"

definition float64_round :: "rat \<Rightarrow> float64" where
  "float64_round x =
     (if x = 0 then 0
      else let ulp = 2 powi (floor_log2 \<bar>x\<bar> - 52)
           in of_int (roundEven (x / ulp)) * ulp)"

definition float64_of_int :: "int \<Rightarrow> float64" where
  "float64_of_int n = float64_round (of_int n)"

definition float64_sub :: "float64 \<Rightarrow> float64 \<Rightarrow> float64" where
  "float64_sub a b = float64_round (a - b)"

definition float64_div :: "float64 \<Rightarrow> float64 \<Rightarrow> float64" where
  \<comment> \<open>the collector divides by a positive number only\<close>
  "float64_div a b = float64_round (a / b)"

definition boolToFloat :: "bool \<Rightarrow> float64" where
  "boolToFloat b = (if \<not> b then 0 else 1)"

subsection \<open>strconv\<close>

definition digit_char :: "nat \<Rightarrow> char" where
  "digit_char d = char_of (48 + d)"

fun format_decimal :: "nat \<Rightarrow> string" where
  "format_decimal n =
     (if n < 10 then [digit_char n] else format_decimal (n div 10) @ [digit_char (n mod 10)])"

declare format_decimal.simps [simp del]

definition FormatUint :: "uint64 \<Rightarrow> string" where
  \<comment> \<open>\<^verbatim>\<open>strconv.FormatUint(x, 10)\<close>\<close>
  "FormatUint x = format_decimal (unat x)"

definition FormatInt :: "int64 \<Rightarrow> string" where
  \<comment> \<open>\<^verbatim>\<open>strconv.FormatInt(x, 10)\<close>\<close>
  "FormatInt x =
     (if sint x < 0 then CHR ''-'' # format_decimal (nat (- sint x))
      else format_decimal (nat (sint x)))"

definition FormatBool :: "bool \<Rightarrow> string" where
  "FormatBool b = (if b then ''true'' else ''false'')"

section \<open>Descriptors, samples and the exporter\<close>

text \<open>
  \<^verbatim>\<open>prometheus.Desc\<close>, with the error that \<^verbatim>\<open>NewDesc\<close> stores in a descriptor it finds
  malformed (the field \<^verbatim>\<open>err\<close>; \<open>None\<close> is Go's \<^verbatim>\<open>nil\<close> error).
\<close>

record Desc =
  fqName :: string
  helpText :: string
  variableLabels :: "string list"
  err_desc :: "string option"

datatype ValueType = GaugeValue | CounterValue

record Metric =
  desc :: Desc
  valType :: ValueType
  val :: float64
  labelValues :: "string list"

type_synonym Duration = int64

definition Second :: Duration where
  "Second = 1000000000"

text \<open>
  \<^verbatim>\<open>LndExporter\<close>. The Go map \<^verbatim>\<open>metrics\<close> is the list of its entries, in the order of
  the constructor's literal (the keys are distinct); a lookup is \<open>map_of\<close>. The embedded
  mutex has no field: locking and unlocking are events of a scrape.
\<close>

record LndExporter =
  metrics :: "(string \<times> Desc) list"
  rpcAddr :: string
  tlsCertPath :: string
  macaroonPath :: string
  timeout :: Duration
  exportPeerMetrics :: bool
  exportPaymentMetrics :: bool

text \<open>
  The names that the client library accepts. \<^verbatim>\<open>model.IsValidMetricName\<close> is, in the
  library's legacy scheme, the pattern \<^verbatim>\<open>[a-zA-Z_:][a-zA-Z0-9_:]*\<close>, checked rune by rune with
  the rune's index; \<^verbatim>\<open>checkLabelName\<close> is the pattern \<^verbatim>\<open>[a-zA-Z_][a-zA-Z0-9_]*\<close> without the
  reserved prefix \<^verbatim>\<open>__\<close>. A string is a list of bytes; a byte above 127 is in none of the
  classes, as is the rune it belongs to.
\<close>

definition is_letter :: "char \<Rightarrow> bool" where
  "is_letter b \<longleftrightarrow>
     (97 \<le> (of_char b :: nat) \<and> (of_char b :: nat) \<le> 122) \<or>
     (65 \<le> (of_char b :: nat) \<and> (of_char b :: nat) \<le> 90)"

definition is_digit :: "char \<Rightarrow> bool" where
  "is_digit b \<longleftrightarrow> 48 \<le> (of_char b :: nat) \<and> (of_char b :: nat) \<le> 57"

definition isValidLegacyRune :: "char \<Rightarrow> nat \<Rightarrow> bool" where
  "isValidLegacyRune b i \<longleftrightarrow>
     is_letter b \<or> b = CHR ''_'' \<or> b = CHR '':'' \<or> (is_digit b \<and> i > 0)"

definition IsValidMetricName :: "string \<Rightarrow> bool" where
  "IsValidMetricName n \<longleftrightarrow>
     n \<noteq> [] \<and> list_all (\<lambda>(i, b). isValidLegacyRune b i) (enumerate 0 n)"

definition IsValidLabelName :: "string \<Rightarrow> bool" where
  \<comment> \<open>\<^verbatim>\<open>model.LabelName(l).IsValid()\<close>\<close>
  "IsValidLabelName l \<longleftrightarrow>
     l \<noteq> [] \<and>
     list_all (\<lambda>(i, b). is_letter b \<or> b = CHR ''_'' \<or> (is_digit b \<and> i > 0)) (enumerate 0 l)"

definition checkLabelName :: "string \<Rightarrow> bool" where
  "checkLabelName l \<longleftrightarrow> IsValidLabelName l \<and> take 2 l \<noteq> ''__''"

definition quote :: "string \<Rightarrow> string" where
  \<comment> \<open>the verb \<^verbatim>\<open>%q\<close>, without its escapes\<close>
  "quote s = [CHR 0x22] @ s @ [CHR 0x22]"

text \<open>
  \<^verbatim>\<open>prometheus.NewDesc\<close>, called without constant labels. It always returns a descriptor; in
  one whose name is not a metric name, or with a label name that is not one, or with a label
  name twice, it stores the error, which every later use of the descriptor reports.
\<close>

definition NewDesc :: "string \<Rightarrow> string \<Rightarrow> string list \<Rightarrow> Desc" where
  "NewDesc name doc labels =
     \<lparr>fqName = name, helpText = doc, variableLabels = labels,
      err_desc =
        (if \<not> IsValidMetricName name then Some (quote name @ '' is not a valid metric name'')
         else case find (\<lambda>l. \<not> checkLabelName l) labels of
                Some l \<Rightarrow> Some (quote l @ '' is not a valid label name for metric '' @ quote name)
              | None \<Rightarrow> if \<not> distinct labels then Some ''duplicate label names'' else None)\<rparr>"

definition newGlobalMetric :: "string \<Rightarrow> string \<Rightarrow> string \<Rightarrow> string list \<Rightarrow> Desc" where
  "newGlobalMetric namespace metricName docString labels =
     NewDesc (namespace @ ''_'' @ metricName) docString labels"

definition channel_labels :: "string list" where
  "channel_labels = [''active'', ''remote_pubkey'', ''chan_point'', ''chan_id'', ''capacity'',
     ''commit_fee'', ''private'', ''initiator'']"

definition best_block_help :: string where
  \<comment> \<open>the apostrophe of the source is U+2019, three bytes in UTF-8\<close>
  "best_block_help = ''The node'' @ [CHR 0xE2, CHR 0x80, CHR 0x99] @
     ''s current view of the height of the best block''"

text \<open>The map literal of the constructor, entry by entry.\<close>

definition catalog :: "string \<Rightarrow> (string \<times> Desc) list" where
  "catalog namespace =
        [(''lnd_up'', newGlobalMetric namespace ''lnd_up'' ''up'' []),
         (''forwarding_history_info'',
            newGlobalMetric namespace ''forwarding_history_info'' ''forwarding_history_info''
              [''peer_alias_in'', ''peer_alias_out'', ''amount_in'', ''amount_out'', ''fee'',
               ''channel_id_in'', ''channel_id_out'', ''timestamp_ns'']),
         (''network_capacity_sats_total'',
            newGlobalMetric namespace ''network_capacity_sats_total'' ''network_capacity_sats_total'' []),
         (''network_channels_total'',
            newGlobalMetric namespace ''network_channels_total'' ''network_channels_total'' []),
         (''network_nodes_total'',
            newGlobalMetric namespace ''network_nodes_total'' ''network_nodes_total'' []),
         (''instance_info'',
            newGlobalMetric namespace ''instance_info'' ''instance_info''
              [''alias'', ''pubkey'', ''version'']),
         (''wallet_balance_sats'',
            newGlobalMetric namespace ''wallet_balance_sats'' ''The wallet balance.'' [''status'']),
         (''peers'',
            newGlobalMetric namespace ''peers'' ''Number of currently connected peers.'' []),
         (''channels'', newGlobalMetric namespace ''channels'' ''Number of channels'' [''status'']),
         (''block_height'', newGlobalMetric namespace ''block_height'' best_block_help []),
         (''synced_to_chain'', newGlobalMetric namespace ''synced_to_chain'' best_block_help []),
         (''channel_limbo_balance_sats'',
            newGlobalMetric namespace ''channel_limbo_balance_sats''
              ''The balance in satoshis encumbered in pending channels'' []),
         (''channels_pending'',
            newGlobalMetric namespace ''channel_pending'' ''The total pending channels''
              [''status'', ''forced'']),
         (''channels_waiting_close'',
            newGlobalMetric namespace ''channel_waiting_close''
              ''Channels waiting for closing tx to confirm'' []),
         (''channels_balance_sats'',
            newGlobalMetric namespace ''channels_balance_sats''
              ''Sum of all channel funds available'' []),
         (''channel_balance_sats'',
            newGlobalMetric namespace ''channel_balance_sats'' ''The channel local balance''
              channel_labels),
         (''channel_balance_percentage'',
            newGlobalMetric namespace ''channel_balance_percentage'' ''The channel local balance''
              channel_labels),
         (''peer_info'',
            newGlobalMetric namespace ''peer_info'' ''peer_info''
              [''addr'', ''remote_pubkey'', ''direction'']),
         (''peer_info_received_bytes_total'',
            newGlobalMetric namespace ''peer_info_received_bytes_total''
              ''peer_info_received_bytes_total'' [''addr'']),
         (''peer_info_sent_bytes_total'',
            newGlobalMetric namespace ''peer_info_sent_bytes_total''
              ''peer_info_sent_bytes_total'' [''addr''])]"

definition NewLightningExporter ::
  "string \<Rightarrow> string \<Rightarrow> string \<Rightarrow> string \<Rightarrow> Duration \<Rightarrow> bool \<Rightarrow> LndExporter" where
  "NewLightningExporter namespace rpcAddr' tlsCertPath' macaroonPath' timeout' exportPeerMetrics' =
     \<lparr>metrics = catalog namespace,
      rpcAddr = rpcAddr',
      tlsCertPath = tlsCertPath',
      macaroonPath = macaroonPath',
      timeout = timeout',
      exportPeerMetrics = exportPeerMetrics',
      exportPaymentMetrics = True\<rparr>"

text \<open>
  \<^verbatim>\<open>Describe\<close> ranges over the Go map and sends every value. Go leaves the order of a
  \<^verbatim>\<open>range\<close> over a map unspecified (and randomises it), so \<open>Describe c ds\<close> says that
  \<open>ds\<close> is a sequence one call may send: the values of the map, each entry once, in some order.
\<close>

definition Describe :: "LndExporter \<Rightarrow> Desc list \<Rightarrow> bool" where
  "Describe c ds \<longleftrightarrow> mset ds = mset (map snd (metrics c))"

section \<open>The node and what a scrape does\<close>

text \<open>
  The responses of \<^verbatim>\<open>lnrpc\<close>, with the fields the collector reads. The entries of the
  four pending-channel lists are never read (only \<^verbatim>\<open>len\<close> is taken), so they are units.
\<close>

record GetInfoResponse =
  Alias :: string
  IdentityPubkey :: string
  Version :: string
  NumPeers :: uint32
  NumActiveChannels :: uint32
  NumPendingChannels :: uint32
  NumInactiveChannels :: uint32
  BlockHeight :: uint32
  SyncedToChain :: bool

record WalletBalanceResponse =
  UnconfirmedBalance :: int64
  ConfirmedBalance :: int64

record PendingChannelsResponse =
  TotalLimboBalance :: int64
  PendingOpenChannels :: "unit list"
  PendingClosingChannels :: "unit list"
  PendingForceClosingChannels :: "unit list"
  WaitingCloseChannels :: "unit list"

record ChannelBalanceResponse =
  Balance :: int64

record ForwardingEvent =
  PeerAliasIn :: string
  PeerAliasOut :: string
  AmtIn :: uint64
  AmtOut :: uint64
  Fee :: uint64
  ChanIdIn :: uint64
  ChanIdOut :: uint64
  TimestampNs :: uint64

record ForwardingHistoryResponse =
  ForwardingEvents :: "ForwardingEvent list"

record NetworkInfo =
  TotalNetworkCapacity :: int64
  NumChannels :: uint32
  NumNodes :: uint32

record Channel =
  Active :: bool
  RemotePubkey :: string
  ChannelPoint :: string
  ChanId :: uint64
  Capacity :: int64
  CommitFee :: int64
  LocalBalance :: int64
  Private :: bool
  Initiator :: bool

record ListChannelsResponse =
  Channels :: "Channel list"

record Peer =
  Inbound :: bool
  Address :: string
  PubKey :: string
  BytesRecv :: uint64
  BytesSent :: uint64

record ListPeersResponse =
  Peers :: "Peer list"

text \<open>
  An error is its message. \<open>Env\<close> is everything outside the process that one scrape
  meets: the files, the dialer and the answer of the node to each call (a call made after
  the session's deadline answers with an error, like any other failure).
\<close>

type_synonym error = string

datatype TransportCredentials = TransportCredentials string
datatype Macaroon = Macaroon "8 word list"
datatype ClientConn = ClientConn string

record Env =
  NewClientTLSFromFile :: "string \<Rightarrow> error + TransportCredentials"
  ReadFile :: "string \<Rightarrow> error + 8 word list"
  UnmarshalBinary :: "8 word list \<Rightarrow> error + Macaroon"
  NewMacaroonCredential :: "Macaroon \<Rightarrow> error option"
  Dial :: "string \<Rightarrow> error + ClientConn"
  GetInfo :: "error + GetInfoResponse"
  WalletBalance :: "error + WalletBalanceResponse"
  PendingChannels :: "error + PendingChannelsResponse"
  ChannelBalance :: "error + ChannelBalanceResponse"
  ForwardingHistory :: "error + ForwardingHistoryResponse"
  GetNetworkInfo :: "error + NetworkInfo"
  ListChannels :: "error + ListChannelsResponse"
  ListPeers :: "error + ListPeersResponse"

text \<open>
  What a scrape does to the outside, in order: it takes and releases the exporter's mutex,
  dials and closes the connection, binds and cancels the deadline, calls the node, sends
  samples into the channel \<^verbatim>\<open>ch\<close>, and logs. \<open>Defer a\<close> registers \<open>a\<close> to run when
  the function is left.
\<close>

datatype request =
  GetInfoRequest | WalletBalanceRequest | PendingChannelsRequest | ChannelBalanceRequest
  | ForwardingHistoryRequest | NetworkInfoRequest | ListChannelsRequest | ListPeersRequest

datatype event =
  Lock | Unlock
  | DialEv string
  | Close ClientConn
  | WithTimeout Duration
  | Cancel
  | Call request
  | Send Metric
  | Log string
  | Defer event

text \<open>
  A piece of the function body yields its events and says how it ended: it ran through, it
  executed \<^verbatim>\<open>return\<close>, or it panicked. \<open>seq\<close> runs the second piece only when the first
  ran through.
\<close>

datatype ending = Through | Return | Panic string

type_synonym stmt = "event list \<times> ending"

definition skip :: stmt where
  "skip = ([], Through)"

definition emit :: "event \<Rightarrow> stmt" where
  "emit e = ([e], Through)"

definition return :: stmt where
  "return = ([], Return)"

definition seq :: "stmt \<Rightarrow> stmt \<Rightarrow> stmt" where
  "seq s t = (case snd s of Through \<Rightarrow> (fst s @ fst t, snd t) | _ \<Rightarrow> s)"

fun block :: "stmt list \<Rightarrow> stmt" where
  "block [] = skip"
| "block (s # ss) = seq s (block ss)"

definition logf :: "string \<Rightarrow> error \<Rightarrow> stmt" where
  \<comment> \<open>\<^verbatim>\<open>log.Printf\<close> with one \<^verbatim>\<open>%s\<close> at the end of the format, and \<^verbatim>\<open>log.Println\<close>\<close>
  "logf fmt err = emit (Log (fmt @ err))"

text \<open>
  For the UTF-8 check of label values: \<^verbatim>\<open>utf8.ValidString\<close>. The first byte of a rune fixes
  how many bytes follow and the range of the second one (Go's tables \<^verbatim>\<open>first\<close> and
  \<^verbatim>\<open>acceptRanges\<close>); every further byte is a continuation byte \<^verbatim>\<open>0x80\<close> to \<^verbatim>\<open>0xBF\<close>.
  \<open>valid_from rs s\<close> reads \<open>s\<close> when the bytes still owed to the current rune have the ranges
  \<open>rs\<close>.
\<close>

definition first :: "nat \<Rightarrow> (nat \<times> nat) list option" where
  "first b =
     (if b < 0x80 then Some []
      else if 0xC2 \<le> b \<and> b \<le> 0xDF then Some [(0x80, 0xBF)]
      else if b = 0xE0 then Some [(0xA0, 0xBF), (0x80, 0xBF)]
      else if (0xE1 \<le> b \<and> b \<le> 0xEC) \<or> b = 0xEE \<or> b = 0xEF then Some [(0x80, 0xBF), (0x80, 0xBF)]
      else if b = 0xED then Some [(0x80, 0x9F), (0x80, 0xBF)]
      else if b = 0xF0 then Some [(0x90, 0xBF), (0x80, 0xBF), (0x80, 0xBF)]
      else if 0xF1 \<le> b \<and> b \<le> 0xF3 then Some [(0x80, 0xBF), (0x80, 0xBF), (0x80, 0xBF)]
      else if b = 0xF4 then Some [(0x80, 0x8F), (0x80, 0xBF), (0x80, 0xBF)]
      else None)"

fun valid_from :: "(nat \<times> nat) list \<Rightarrow> string \<Rightarrow> bool" where
  "valid_from [] [] = True"
| "valid_from (r # rs) [] = False"
| "valid_from [] (b # s) = (case first (of_char b) of None \<Rightarrow> False | Some rs \<Rightarrow> valid_from rs s)"
| "valid_from ((lo, hi) # rs) (b # s) = (lo \<le> of_char b \<and> of_char b \<le> hi \<and> valid_from rs s)"

definition ValidString :: "string \<Rightarrow> bool" where
  "ValidString s = valid_from [] s"

text \<open>
  \<^verbatim>\<open>prometheus.MustNewConstMetric\<close> panics with the error of \<^verbatim>\<open>NewConstMetric\<close>: when it is
  given no descriptor (a key that is not in the map yields a nil pointer, which is
  dereferenced), when the descriptor carries an error, when the number of label values is not
  the number of the descriptor's label names, and when a label value is not valid UTF-8, in
  this order. \<^verbatim>\<open>ch <- m\<close> then sends the sample.
\<close>

definition MustNewConstMetric ::
  "Desc option \<Rightarrow> ValueType \<Rightarrow> float64 \<Rightarrow> string list \<Rightarrow> string + Metric" where
  "MustNewConstMetric d t v lvs =
     (case d of
        None \<Rightarrow> Inl ''invalid memory address or nil pointer dereference''
      | Some d' \<Rightarrow>
     (case err_desc d' of
        Some e \<Rightarrow> Inl e
      | None \<Rightarrow>
          if length lvs \<noteq> length (variableLabels d') then Inl ''inconsistent label cardinality''
          else case find (\<lambda>v. \<not> ValidString v) lvs of
                 Some v \<Rightarrow> Inl (''label value '' @ quote v @ '' is not valid UTF-8'')
               | None \<Rightarrow> Inr \<lparr>desc = d', valType = t, val = v, labelValues = lvs\<rparr>))"

definition send :: "string + Metric \<Rightarrow> stmt" where
  "send r = (case r of Inl p \<Rightarrow> ([], Panic p) | Inr m \<Rightarrow> emit (Send m))"

definition metric :: "LndExporter \<Rightarrow> string \<Rightarrow> Desc option" where
  \<comment> \<open>\<^verbatim>\<open>c.metrics[key]\<close>\<close>
  "metric c key = map_of (metrics c) key"

subsection \<open>getGrpcClient\<close>

definition getGrpcClient :: "Env \<Rightarrow> string \<Rightarrow> string \<Rightarrow> string \<Rightarrow> event list \<times> (error + ClientConn)" where
  "getGrpcClient w addr tlsPath macPath =
     (case NewClientTLSFromFile w tlsPath of
        Inl err \<Rightarrow> ([Log (''Cannot get node tls credentials '' @ err)], Inl err)
      | Inr tlsCreds \<Rightarrow>
     (case ReadFile w macPath of
        Inl err \<Rightarrow> ([Log (''Cannot read macaroon file '' @ err)], Inl err)
      | Inr macaroonBytes \<Rightarrow>
     (case UnmarshalBinary w macaroonBytes of
        Inl err \<Rightarrow> ([Log (''Cannot unmarshal macaroon '' @ err)], Inl err)
      | Inr mac \<Rightarrow>
     (case NewMacaroonCredential w mac of
        Some err \<Rightarrow> ([], Inl err)
      | None \<Rightarrow>
     (case Dial w addr of
        Inl err \<Rightarrow> ([DialEv addr, Log (''grpc.Dial() err: '' @ err)], Inl err)
      | Inr conn \<Rightarrow> ([DialEv addr], Inr conn))))))"

subsection \<open>The probes of Collect, in the order of the source\<close>

definition info_samples :: "LndExporter \<Rightarrow> GetInfoResponse \<Rightarrow> stmt" where
  "info_samples c stats = block
     [send (MustNewConstMetric (metric c ''instance_info'') GaugeValue 1
        [Alias stats, IdentityPubkey stats, Version stats]),
      send (MustNewConstMetric (metric c ''peers'') GaugeValue
        (float64_of_int (uint (NumPeers stats))) []),
      send (MustNewConstMetric (metric c ''channels'') GaugeValue
        (float64_of_int (uint (NumActiveChannels stats))) [''active'']),
      send (MustNewConstMetric (metric c ''channels'') GaugeValue
        (float64_of_int (uint (NumPendingChannels stats))) [''pending'']),
      send (MustNewConstMetric (metric c ''channels'') GaugeValue
        (float64_of_int (uint (NumInactiveChannels stats))) [''inactive'']),
      send (MustNewConstMetric (metric c ''block_height'') GaugeValue
        (float64_of_int (uint (BlockHeight stats))) []),
      send (MustNewConstMetric (metric c ''synced_to_chain'') GaugeValue
        (boolToFloat (SyncedToChain stats)) [])]"

definition wallet_probe :: "LndExporter \<Rightarrow> Env \<Rightarrow> stmt" where
  "wallet_probe c w = seq (emit (Call WalletBalanceRequest))
     (case WalletBalance w of
        Inr walletStats \<Rightarrow> block
          [send (MustNewConstMetric (metric c ''wallet_balance_sats'') GaugeValue
             (float64_of_int (sint (UnconfirmedBalance walletStats))) [''unconfirmed'']),
           send (MustNewConstMetric (metric c ''wallet_balance_sats'') GaugeValue
             (float64_of_int (sint (ConfirmedBalance walletStats))) [''confirmed''])]
      | Inl err \<Rightarrow> logf ''rpcClient.GetWalletStats err: '' err)"

definition pending_probe :: "LndExporter \<Rightarrow> Env \<Rightarrow> stmt" where
  "pending_probe c w = seq (emit (Call PendingChannelsRequest))
     (case PendingChannels w of
        Inr pendingChannelsStats \<Rightarrow> block
          [send (MustNewConstMetric (metric c ''channel_limbo_balance_sats'') GaugeValue
             (float64_of_int (sint (TotalLimboBalance pendingChannelsStats))) []),
           send (MustNewConstMetric (metric c ''channels_pending'') GaugeValue
             (float64_of_int (int (length (PendingOpenChannels pendingChannelsStats))))
             [''opening'', ''false'']),
           send (MustNewConstMetric (metric c ''channels_pending'') GaugeValue
             (float64_of_int (int (length (PendingClosingChannels pendingChannelsStats))))
             [''closing'', ''false'']),
           send (MustNewConstMetric (metric c ''channels_pending'') GaugeValue
             (float64_of_int (int (length (PendingForceClosingChannels pendingChannelsStats))))
             [''closing'', ''true'']),
           send (MustNewConstMetric (metric c ''channels_waiting_close'') GaugeValue
             (float64_of_int (int (length (WaitingCloseChannels pendingChannelsStats)))) [])]
      | Inl err \<Rightarrow> logf ''rpcClient.GetPendingChannelsStats err: '' err)"

definition channels_balance_probe :: "LndExporter \<Rightarrow> Env \<Rightarrow> stmt" where
  "channels_balance_probe c w = seq (emit (Call ChannelBalanceRequest))
     (case ChannelBalance w of
        Inr channelsBalanceStats \<Rightarrow>
          send (MustNewConstMetric (metric c ''channels_balance_sats'') GaugeValue
            (float64_of_int (sint (Balance channelsBalanceStats))) [])
      | Inl err \<Rightarrow> logf ''rpcClient.GetChannelsBalanceStats err: '' err)"

definition forwarding_sample :: "LndExporter \<Rightarrow> ForwardingEvent \<Rightarrow> stmt" where
  "forwarding_sample c f =
     send (MustNewConstMetric (metric c ''forwarding_history_info'') GaugeValue 1
       [PeerAliasIn f, PeerAliasOut f, FormatUint (AmtIn f), FormatUint (AmtOut f),
        FormatUint (Fee f), FormatUint (ChanIdIn f), FormatUint (ChanIdOut f),
        FormatUint (TimestampNs f)])"

definition forwarding_probe :: "LndExporter \<Rightarrow> Env \<Rightarrow> stmt" where
  "forwarding_probe c w =
     (if exportPaymentMetrics c then
        seq (emit (Call ForwardingHistoryRequest))
          (case ForwardingHistory w of
             Inr fwdHistoryStats \<Rightarrow> block (map (forwarding_sample c) (ForwardingEvents fwdHistoryStats))
           | Inl err \<Rightarrow> logf ''rpcClient.ForwardingHistory err: '' err)
      else skip)"

definition network_probe :: "LndExporter \<Rightarrow> Env \<Rightarrow> stmt" where
  "network_probe c w = seq (emit (Call NetworkInfoRequest))
     (case GetNetworkInfo w of
        Inr networkInfo \<Rightarrow> block
          [send (MustNewConstMetric (metric c ''network_capacity_sats_total'') GaugeValue
             (float64_of_int (sint (TotalNetworkCapacity networkInfo))) []),
           send (MustNewConstMetric (metric c ''network_channels_total'') GaugeValue
             (float64_of_int (uint (NumChannels networkInfo))) []),
           send (MustNewConstMetric (metric c ''network_nodes_total'') GaugeValue
             (float64_of_int (uint (NumNodes networkInfo))) [])]
      | Inl err \<Rightarrow> skip)"

definition lbls :: "Channel \<Rightarrow> string list" where
  "lbls channel =
     [FormatBool (Active channel), RemotePubkey channel, ChannelPoint channel,
      FormatUint (ChanId channel), FormatInt (Capacity channel), FormatInt (CommitFee channel),
      FormatBool (Private channel), FormatBool (Initiator channel)]"

definition realCapacity :: "Channel \<Rightarrow> float64" where
  "realCapacity channel =
     float64_sub (float64_of_int (sint (Capacity channel))) (float64_of_int (sint (CommitFee channel)))"

definition channel_samples :: "LndExporter \<Rightarrow> Channel \<Rightarrow> stmt" where
  "channel_samples c channel =
     seq (if realCapacity channel > 0 then
            send (MustNewConstMetric (metric c ''channel_balance_percentage'') GaugeValue
              (float64_div (float64_of_int (sint (LocalBalance channel))) (realCapacity channel))
              (lbls channel))
          else skip)
         (send (MustNewConstMetric (metric c ''channel_balance_sats'') GaugeValue
            (float64_of_int (sint (LocalBalance channel))) (lbls channel)))"

definition channels_probe :: "LndExporter \<Rightarrow> Env \<Rightarrow> stmt" where
  "channels_probe c w = seq (emit (Call ListChannelsRequest))
     (case ListChannels w of
        Inr channelBalanceStats \<Rightarrow> block (map (channel_samples c) (Channels channelBalanceStats))
      | Inl err \<Rightarrow> logf ''rpcClient.GetChannelBalanceStats err: '' err)"

definition peer_samples :: "LndExporter \<Rightarrow> Peer \<Rightarrow> stmt" where
  "peer_samples c peer =
     (let dir = (if Inbound peer then ''inbound'' else ''outbound'') in block
       [send (MustNewConstMetric (metric c ''peer_info'') GaugeValue 1
          [Address peer, PubKey peer, dir]),
        send (MustNewConstMetric (metric c ''peer_info_received_bytes_total'') CounterValue
          (float64_of_int (uint (BytesRecv peer))) [Address peer]),
        send (MustNewConstMetric (metric c ''peer_info_sent_bytes_total'') CounterValue
          (float64_of_int (uint (BytesSent peer))) [Address peer])])"

definition peers_probe :: "LndExporter \<Rightarrow> Env \<Rightarrow> stmt" where
  "peers_probe c w =
     (if exportPeerMetrics c then
        seq (emit (Call ListPeersRequest))
          (case ListPeers w of
             Inr peers \<Rightarrow> block (map (peer_samples c) (Peers peers))
           | Inl err \<Rightarrow> logf ''rpcClient.ListPeers err: '' err)
      else skip)"

definition lnd_up :: "LndExporter \<Rightarrow> float64 \<Rightarrow> stmt" where
  "lnd_up c v = send (MustNewConstMetric (metric c ''lnd_up'') GaugeValue v [])"

subsection \<open>Collect\<close>

definition Collect_body :: "LndExporter \<Rightarrow> Env \<Rightarrow> stmt" where
  "Collect_body c w = block
     [emit Lock,
      emit (Defer Unlock),
      (case getGrpcClient w (rpcAddr c) (tlsCertPath c) (macaroonPath c) of
         (evs, Inl err) \<Rightarrow> block
           [(evs, Through), logf ''getGrpcClient() err: '' err, lnd_up c 0, return]
       | (evs, Inr con) \<Rightarrow> block
           [(evs, Through),
            emit (Defer (Close con)),
            emit (WithTimeout (15 * Second)),
            emit (Defer Cancel),
            emit (Call GetInfoRequest),
            (case GetInfo w of
               Inl err \<Rightarrow> block [logf ''rpcClient.GetInfo() err: '' err, lnd_up c 0, return]
             | Inr stats \<Rightarrow> block
                 [info_samples c stats,
                  wallet_probe c w,
                  pending_probe c w,
                  channels_balance_probe c w,
                  forwarding_probe c w,
                  network_probe c w,
                  channels_probe c w,
                  peers_probe c w,
                  lnd_up c 1])])]"

text \<open>
  Leaving the function, by its end, by \<^verbatim>\<open>return\<close> or by a panic, runs the deferred
  calls, the last registered first. The caller sees a return or the panic.
\<close>

fun deferred :: "event list \<Rightarrow> event list" where
  "deferred [] = []"
| "deferred (Defer a # es) = deferred es @ [a]"
| "deferred (e # es) = deferred es"

definition Collect :: "LndExporter \<Rightarrow> Env \<Rightarrow> stmt" where
  "Collect c w =
     (let (evs, how) = Collect_body c w
      in (evs @ deferred evs, case how of Panic p \<Rightarrow> Panic p | _ \<Rightarrow> Return))"

text \<open>What an observer of the channel, of the node and of the connection sees of a trace.\<close>

fun sent :: "event list \<Rightarrow> Metric list" where
  "sent [] = []"
| "sent (Send m # es) = m # sent es"
| "sent (e # es) = sent es"

fun calls :: "event list \<Rightarrow> request list" where
  "calls [] = []"
| "calls (Call r # es) = r # calls es"
| "calls (e # es) = calls es"

fun deadlines :: "event list \<Rightarrow> Duration list" where
  "deadlines [] = []"
| "deadlines (WithTimeout d # es) = d # deadlines es"
| "deadlines (e # es) = deadlines es"

text \<open>The liveness sample \<^verbatim>\<open>lnd_up\<close> with value \<open>v\<close>, as the constructor's catalog describes it.\<close>

definition liveness :: "string \<Rightarrow> float64 \<Rightarrow> Metric" where
  "liveness ns v =
     \<lparr>desc = newGlobalMetric ns ''lnd_up'' ''up'' [], valType = GaugeValue, val = v, labelValues = []\<rparr>"

text \<open>
  For the statements about the samples of one probe: \<open>probe_names r\<close> are the metric names
  (after the namespace) of the samples that the probe calling \<open>r\<close> sends.
\<close>

fun probe_names :: "request \<Rightarrow> string list" where
  "probe_names GetInfoRequest =
     [''instance_info'', ''peers'', ''channels'', ''block_height'', ''synced_to_chain'']"
| "probe_names WalletBalanceRequest = [''wallet_balance_sats'']"
| "probe_names PendingChannelsRequest =
     [''channel_limbo_balance_sats'', ''channel_pending'', ''channel_waiting_close'']"
| "probe_names ChannelBalanceRequest = [''channels_balance_sats'']"
| "probe_names ForwardingHistoryRequest = [''forwarding_history_info'']"
| "probe_names NetworkInfoRequest =
     [''network_capacity_sats_total'', ''network_channels_total'', ''network_nodes_total'']"
| "probe_names ListChannelsRequest = [''channel_balance_percentage'', ''channel_balance_sats'']"
| "probe_names ListPeersRequest =
     [''peer_info'', ''peer_info_received_bytes_total'', ''peer_info_sent_bytes_total'']"

definition from_probe :: "string \<Rightarrow> request \<Rightarrow> Metric \<Rightarrow> bool" where
  "from_probe ns r m \<longleftrightarrow> fqName (desc m) \<in> set (map (\<lambda>n. ns @ ''_'' @ n) (probe_names r))"

text \<open>
  A sample is consistent when it has as many label values as its descriptor has label names.
  \<open>probe_event\<close> holds of the events of a probe: calls, log lines and consistent samples;
  \<open>dial_event\<close> of those of \<^verbatim>\<open>getGrpcClient\<close>.
\<close>

definition consistent :: "Metric \<Rightarrow> bool" where
  "consistent m \<longleftrightarrow> length (labelValues m) = length (variableLabels (desc m))"

fun probe_event :: "event \<Rightarrow> bool" where
  "probe_event (Call r) = True"
| "probe_event (Send m) = consistent m"
| "probe_event (Log l) = True"
| "probe_event e = False"

fun dial_event :: "event \<Rightarrow> bool" where
  "dial_event (DialEv a) = True"
| "dial_event (Log l) = True"
| "dial_event e = False"

text \<open>
  For the statements about the samples of a channel: the ratio sample with value \<open>v\<close> and the
  balance sample, as the catalog describes them; and, for the proofs about \<open>float64_round\<close>,
  the unit in the last place of a positive integer.
\<close>

definition ratio_sample :: "string \<Rightarrow> Channel \<Rightarrow> float64 \<Rightarrow> Metric" where
  "ratio_sample ns channel v =
     \<lparr>desc = newGlobalMetric ns ''channel_balance_percentage'' ''The channel local balance''
        channel_labels,
      valType = GaugeValue, val = v, labelValues = lbls channel\<rparr>"

definition balance_sample :: "string \<Rightarrow> Channel \<Rightarrow> Metric" where
  "balance_sample ns channel =
     \<lparr>desc = newGlobalMetric ns ''channel_balance_sats'' ''The channel local balance''
        channel_labels,
      valType = GaugeValue, val = float64_of_int (sint (LocalBalance channel)),
      labelValues = lbls channel\<rparr>"

definition ulp :: "int \<Rightarrow> rat" where
  "ulp n = 2 powi (bitlen n - 1 - 52)"

text \<open>
  What a scrape may take for granted. \<open>descriptors_valid c\<close>: no descriptor of the exporter
  carries an error; \<^verbatim>\<open>registry.MustRegister\<close> in \<^verbatim>\<open>main\<close> panics at start-up on an exporter
  without this property, so that no scrape of the running program sees one.
  \<open>utf8_answers w\<close>: the strings of the node's answers that become label values are valid
  UTF-8, which the decoding of a protobuf \<^verbatim>\<open>string\<close> field checks.
\<close>

definition descriptors_valid :: "LndExporter \<Rightarrow> bool" where
  "descriptors_valid c \<longleftrightarrow> list_all (\<lambda>d. err_desc d = None) (map snd (metrics c))"

definition utf8_info :: "GetInfoResponse \<Rightarrow> bool" where
  "utf8_info stats \<longleftrightarrow>
     ValidString (Alias stats) \<and> ValidString (IdentityPubkey stats) \<and> ValidString (Version stats)"

definition utf8_event :: "ForwardingEvent \<Rightarrow> bool" where
  "utf8_event f \<longleftrightarrow> ValidString (PeerAliasIn f) \<and> ValidString (PeerAliasOut f)"

definition utf8_channel :: "Channel \<Rightarrow> bool" where
  "utf8_channel channel \<longleftrightarrow> ValidString (RemotePubkey channel) \<and> ValidString (ChannelPoint channel)"

definition utf8_peer :: "Peer \<Rightarrow> bool" where
  "utf8_peer peer \<longleftrightarrow> ValidString (Address peer) \<and> ValidString (PubKey peer)"

definition utf8_answers :: "Env \<Rightarrow> bool" where
  "utf8_answers w \<longleftrightarrow>
     (case GetInfo w of Inl e \<Rightarrow> True | Inr stats \<Rightarrow> utf8_info stats) \<and>
     (case ForwardingHistory w of Inl e \<Rightarrow> True | Inr r \<Rightarrow> list_all utf8_event (ForwardingEvents r)) \<and>
     (case ListChannels w of Inl e \<Rightarrow> True | Inr r \<Rightarrow> list_all utf8_channel (Channels r)) \<and>
     (case ListPeers w of Inl e \<Rightarrow> True | Inr r \<Rightarrow> list_all utf8_peer (Peers r))"

text \<open>
  For the statement about the output of a whole scrape: the samples that each probe owes for
  an answer of the node, written out, with the descriptors as the constructor makes them.
\<close>

definition gauge :: "Desc \<Rightarrow> float64 \<Rightarrow> string list \<Rightarrow> Metric" where
  "gauge d v lvs = \<lparr>desc = d, valType = GaugeValue, val = v, labelValues = lvs\<rparr>"

definition counter :: "Desc \<Rightarrow> float64 \<Rightarrow> string list \<Rightarrow> Metric" where
  "counter d v lvs = \<lparr>desc = d, valType = CounterValue, val = v, labelValues = lvs\<rparr>"

definition info_metrics :: "string \<Rightarrow> GetInfoResponse \<Rightarrow> Metric list" where
  "info_metrics ns stats =
     [gauge (newGlobalMetric ns ''instance_info'' ''instance_info'' [''alias'', ''pubkey'', ''version''])
        1 [Alias stats, IdentityPubkey stats, Version stats],
      gauge (newGlobalMetric ns ''peers'' ''Number of currently connected peers.'' [])
        (float64_of_int (uint (NumPeers stats))) [],
      gauge (newGlobalMetric ns ''channels'' ''Number of channels'' [''status''])
        (float64_of_int (uint (NumActiveChannels stats))) [''active''],
      gauge (newGlobalMetric ns ''channels'' ''Number of channels'' [''status''])
        (float64_of_int (uint (NumPendingChannels stats))) [''pending''],
      gauge (newGlobalMetric ns ''channels'' ''Number of channels'' [''status''])
        (float64_of_int (uint (NumInactiveChannels stats))) [''inactive''],
      gauge (newGlobalMetric ns ''block_height'' best_block_help [])
        (float64_of_int (uint (BlockHeight stats))) [],
      gauge (newGlobalMetric ns ''synced_to_chain'' best_block_help [])
        (if SyncedToChain stats then 1 else 0) []]"

definition wallet_metrics :: "string \<Rightarrow> WalletBalanceResponse \<Rightarrow> Metric list" where
  "wallet_metrics ns r =
     [gauge (newGlobalMetric ns ''wallet_balance_sats'' ''The wallet balance.'' [''status''])
        (float64_of_int (sint (UnconfirmedBalance r))) [''unconfirmed''],
      gauge (newGlobalMetric ns ''wallet_balance_sats'' ''The wallet balance.'' [''status''])
        (float64_of_int (sint (ConfirmedBalance r))) [''confirmed'']]"

definition pending_metrics :: "string \<Rightarrow> PendingChannelsResponse \<Rightarrow> Metric list" where
  "pending_metrics ns r =
     [gauge (newGlobalMetric ns ''channel_limbo_balance_sats''
               ''The balance in satoshis encumbered in pending channels'' [])
        (float64_of_int (sint (TotalLimboBalance r))) [],
      gauge (newGlobalMetric ns ''channel_pending'' ''The total pending channels'' [''status'', ''forced''])
        (float64_of_int (int (length (PendingOpenChannels r)))) [''opening'', ''false''],
      gauge (newGlobalMetric ns ''channel_pending'' ''The total pending channels'' [''status'', ''forced''])
        (float64_of_int (int (length (PendingClosingChannels r)))) [''closing'', ''false''],
      gauge (newGlobalMetric ns ''channel_pending'' ''The total pending channels'' [''status'', ''forced''])
        (float64_of_int (int (length (PendingForceClosingChannels r)))) [''closing'', ''true''],
      gauge (newGlobalMetric ns ''channel_waiting_close''
               ''Channels waiting for closing tx to confirm'' [])
        (float64_of_int (int (length (WaitingCloseChannels r)))) []]"

definition channels_balance_metrics :: "string \<Rightarrow> ChannelBalanceResponse \<Rightarrow> Metric list" where
  "channels_balance_metrics ns r =
     [gauge (newGlobalMetric ns ''channels_balance_sats'' ''Sum of all channel funds available'' [])
        (float64_of_int (sint (Balance r))) []]"

definition forwarding_metrics :: "string \<Rightarrow> ForwardingHistoryResponse \<Rightarrow> Metric list" where
  "forwarding_metrics ns r =
     map (\<lambda>f. gauge (newGlobalMetric ns ''forwarding_history_info'' ''forwarding_history_info''
                       [''peer_alias_in'', ''peer_alias_out'', ''amount_in'', ''amount_out'', ''fee'',
                        ''channel_id_in'', ''channel_id_out'', ''timestamp_ns''])
                  1 [PeerAliasIn f, PeerAliasOut f, FormatUint (AmtIn f), FormatUint (AmtOut f),
                     FormatUint (Fee f), FormatUint (ChanIdIn f), FormatUint (ChanIdOut f),
                     FormatUint (TimestampNs f)])
         (ForwardingEvents r)"

definition network_metrics :: "string \<Rightarrow> NetworkInfo \<Rightarrow> Metric list" where
  "network_metrics ns r =
     [gauge (newGlobalMetric ns ''network_capacity_sats_total'' ''network_capacity_sats_total'' [])
        (float64_of_int (sint (TotalNetworkCapacity r))) [],
      gauge (newGlobalMetric ns ''network_channels_total'' ''network_channels_total'' [])
        (float64_of_int (uint (NumChannels r))) [],
      gauge (newGlobalMetric ns ''network_nodes_total'' ''network_nodes_total'' [])
        (float64_of_int (uint (NumNodes r))) []]"

definition channels_metrics :: "string \<Rightarrow> ListChannelsResponse \<Rightarrow> Metric list" where
  "channels_metrics ns r =
     concat (map (\<lambda>channel.
        (if 0 < realCapacity channel
         then [ratio_sample ns channel
                 (float64_div (float64_of_int (sint (LocalBalance channel))) (realCapacity channel))]
         else []) @ [balance_sample ns channel]) (Channels r))"

definition peers_metrics :: "string \<Rightarrow> ListPeersResponse \<Rightarrow> Metric list" where
  "peers_metrics ns r =
     concat (map (\<lambda>peer.
        [gauge (newGlobalMetric ns ''peer_info'' ''peer_info'' [''addr'', ''remote_pubkey'', ''direction''])
           1 [Address peer, PubKey peer, if Inbound peer then ''inbound'' else ''outbound''],
         counter (newGlobalMetric ns ''peer_info_received_bytes_total''
                    ''peer_info_received_bytes_total'' [''addr''])
           (float64_of_int (uint (BytesRecv peer))) [Address peer],
         counter (newGlobalMetric ns ''peer_info_sent_bytes_total''
                    ''peer_info_sent_bytes_total'' [''addr''])
           (float64_of_int (uint (BytesSent peer))) [Address peer]]) (Peers r))"

text \<open>The samples of all probes for the answers of \<open>w\<close>; a probe whose call fails owes none.\<close>

definition answered :: "('a \<Rightarrow> Metric list) \<Rightarrow> error + 'a \<Rightarrow> Metric list" where
  "answered f a = (case a of Inl e \<Rightarrow> [] | Inr r \<Rightarrow> f r)"

section \<open>Two scrapes at once\<close>

text \<open>
  Two calls of \<^verbatim>\<open>Collect\<close> on the same exporter, each in its own goroutine, share nothing
  but the exporter's mutex: each call has its own connection, context and answers of the node.
  A configuration holds whether the mutex is locked, the events that each call has still to
  perform, and the events performed so far, each with the call that performed it.

  \<open>advance i\<close> lets call \<open>i\<close> perform its next event, as \<^verbatim>\<open>sync.Mutex\<close> allows:
  \<^verbatim>\<open>Lock\<close> needs the mutex unlocked (a call that finds it locked blocks, and cannot be
  advanced); \<^verbatim>\<open>Unlock\<close> unlocks it, whoever locked it, and is a run-time error when it is
  not locked; any other event is always possible. A schedule is the list of the calls that the
  scheduler advances, in order; \<open>run\<close> follows it, and yields \<open>None\<close> for a schedule
  that advances a call which cannot move.
\<close>

datatype scrape = Scrape1 | Scrape2

fun other :: "scrape \<Rightarrow> scrape" where
  "other Scrape1 = Scrape2"
| "other Scrape2 = Scrape1"

type_synonym config = "bool \<times> (scrape \<Rightarrow> event list) \<times> (scrape \<times> event) list"

fun advance :: "scrape \<Rightarrow> config \<Rightarrow> config option" where
  "advance i (locked, rest, tr) =
     (case rest i of
        [] \<Rightarrow> None
      | e # es \<Rightarrow>
          if e = Lock then
            (if locked then None else Some (True, rest(i := es), tr @ [(i, e)]))
          else if e = Unlock then
            (if locked then Some (False, rest(i := es), tr @ [(i, e)]) else None)
          else Some (locked, rest(i := es), tr @ [(i, e)]))"

fun run :: "scrape list \<Rightarrow> config \<Rightarrow> config option" where
  "run [] s = Some s"
| "run (i # sched) s = (case advance i s of None \<Rightarrow> None | Some s' \<Rightarrow> run sched s')"

definition tag :: "scrape \<Rightarrow> event list \<Rightarrow> (scrape \<times> event) list" where
  "tag i es = map (Pair i) es"

definition scrapes :: "LndExporter \<Rightarrow> Env \<Rightarrow> Env \<Rightarrow> scrape \<Rightarrow> event list" where
  "scrapes c w1 w2 i = fst (Collect c (case i of Scrape1 \<Rightarrow> w1 | Scrape2 \<Rightarrow> w2))"

definition start :: "LndExporter \<Rightarrow> Env \<Rightarrow> Env \<Rightarrow> config" where
  "start c w1 w2 = (False, scrapes c w1 w2, [])"

text \<open>
  For the proof that the two calls run one after the other: a critical section is a program
  that locks first, unlocks last and does neither in between; a call is inside after its first
  event and before its last. In a serial configuration one call went first and has done
  \<open>di\<close>, the other has done \<open>dj\<close>, which is nothing as long as the first is not
  through; the mutex is locked exactly when a call is inside.
\<close>

definition section_shape :: "event list \<Rightarrow> bool" where
  "section_shape p \<longleftrightarrow> (\<exists>q. p = Lock # q @ [Unlock] \<and> Lock \<notin> set q \<and> Unlock \<notin> set q)"

definition inside :: "event list \<Rightarrow> event list \<Rightarrow> bool" where
  "inside d r \<longleftrightarrow> d \<noteq> [] \<and> r \<noteq> []"

definition serial :: "(scrape \<Rightarrow> event list) \<Rightarrow> config \<Rightarrow> bool" where
  "serial p s \<longleftrightarrow>
     (case s of (locked, rest, tr) \<Rightarrow>
        \<exists>i di dj. p i = di @ rest i \<and> p (other i) = dj @ rest (other i) \<and>
          tr = tag i di @ tag (other i) dj \<and> (dj \<noteq> [] \<longrightarrow> rest i = []) \<and>
          locked = (inside di (rest i) \<or> inside dj (rest (other i))))"

section \<open>Example exporter and nodes\<close>

text \<open>
  The exporter that \<^verbatim>\<open>main\<close> registers when no flag and no environment variable is set,
  and three nodes: one whose credentials cannot be loaded, one that answers the status call
  and nothing else, and one that answers every call.
\<close>

definition default_exporter :: LndExporter where
  "default_exporter =
     NewLightningExporter ''lnd'' ''localhost:10009'' ''/root/.lnd'' [] (15 * Second) True"

definition offline :: Env where
  "offline =
     \<lparr>NewClientTLSFromFile = (\<lambda>p. Inl ''no such file''),
      ReadFile = (\<lambda>p. Inl ''no such file''),
      UnmarshalBinary = (\<lambda>b. Inl ''empty macaroon data''),
      NewMacaroonCredential = (\<lambda>m. None),
      Dial = (\<lambda>a. Inl ''no address''),
      GetInfo = Inl ''deadline exceeded'',
      WalletBalance = Inl ''deadline exceeded'',
      PendingChannels = Inl ''deadline exceeded'',
      ChannelBalance = Inl ''deadline exceeded'',
      ForwardingHistory = Inl ''deadline exceeded'',
      GetNetworkInfo = Inl ''deadline exceeded'',
      ListChannels = Inl ''deadline exceeded'',
      ListPeers = Inl ''deadline exceeded''\<rparr>"

definition status_only :: Env where
  "status_only = offline
     \<lparr>NewClientTLSFromFile := (\<lambda>p. Inr (TransportCredentials p)),
      ReadFile := (\<lambda>p. Inr []),
      UnmarshalBinary := (\<lambda>b. Inr (Macaroon b)),
      Dial := (\<lambda>a. Inr (ClientConn a)),
      GetInfo := Inr \<lparr>Alias = ''alice'', IdentityPubkey = ''02aa'', Version = ''0.18'',
        NumPeers = 5, NumActiveChannels = 2, NumPendingChannels = 1, NumInactiveChannels = 0,
        BlockHeight = 800000, SyncedToChain = True\<rparr>\<rparr>"

definition channel_a :: Channel where
  "channel_a = \<lparr>Active = True, RemotePubkey = ''03bb'', ChannelPoint = ''ab:0'', ChanId = 1,
     Capacity = 100, CommitFee = 10, LocalBalance = 45, Private = False, Initiator = True\<rparr>"

definition channel_b :: Channel where
  "channel_b = \<lparr>Active = False, RemotePubkey = ''03cc'', ChannelPoint = ''cd:1'', ChanId = 2,
     Capacity = 10, CommitFee = 10, LocalBalance = 45, Private = True, Initiator = False\<rparr>"

definition channel_big :: Channel where
  "channel_big = \<lparr>Active = True, RemotePubkey = ''03dd'', ChannelPoint = ''ef:2'', ChanId = 3,
     Capacity = 9007199254740993, CommitFee = 9007199254740992, LocalBalance = 45,
     Private = False, Initiator = True\<rparr>"

definition healthy :: Env where
  "healthy = status_only
     \<lparr>WalletBalance := Inr \<lparr>UnconfirmedBalance = 0, ConfirmedBalance = 1000\<rparr>,
      PendingChannels := Inr \<lparr>TotalLimboBalance = 0, PendingOpenChannels = [()],
        PendingClosingChannels = [], PendingForceClosingChannels = [], WaitingCloseChannels = []\<rparr>,
      ChannelBalance := Inr \<lparr>Balance = 90\<rparr>,
      ForwardingHistory := Inr \<lparr>ForwardingEvents =
        [\<lparr>PeerAliasIn = ''bob'', PeerAliasOut = ''carol'', AmtIn = 21, AmtOut = 20, Fee = 1,
          ChanIdIn = 1, ChanIdOut = 2, TimestampNs = 7\<rparr>]\<rparr>,
      GetNetworkInfo := Inr \<lparr>TotalNetworkCapacity = 5000, NumChannels = 40, NumNodes = 12\<rparr>,
      ListChannels := Inr \<lparr>Channels = [channel_a, channel_b]\<rparr>,
      ListPeers := Inr \<lparr>Peers =
        [\<lparr>Inbound = True, Address = ''10.0.0.2:9735'', PubKey = ''03bb'', BytesRecv = 10,
          BytesSent = 20\<rparr>]\<rparr>\<rparr>"

text \<open>
  Three more inputs: the node that answers every call but the wallet balance; the exporter
  for the namespace \<^verbatim>\<open>lnd-1\<close>, whose metric names contain a hyphen; and a node whose alias is
  the single byte \<^verbatim>\<open>0xFF\<close>, which is not UTF-8.
\<close>

definition wallet_down :: Env where
  "wallet_down = healthy\<lparr>WalletBalance := Inl ''deadline exceeded''\<rparr>"

definition hyphen_exporter :: LndExporter where
  "hyphen_exporter =
     NewLightningExporter ''lnd-1'' ''localhost:10009'' ''/root/.lnd'' [] (15 * Second) True"

definition garbled :: Env where
  "garbled = status_only
     \<lparr>GetInfo := Inr \<lparr>Alias = [CHR 0xFF], IdentityPubkey = ''02aa'', Version = ''0.18'',
        NumPeers = 5, NumActiveChannels = 2, NumPendingChannels = 1, NumInactiveChannels = 0,
        BlockHeight = 800000, SyncedToChain = True\<rparr>\<rparr>"

section \<open>Lemmas on the pieces of a scrape\<close>

lemma catalog_lookup:
  "map_of (catalog ns) ''lnd_up'' = Some (newGlobalMetric ns ''lnd_up'' ''up'' [])"
  "map_of (catalog ns) ''forwarding_history_info'' = Some (newGlobalMetric ns ''forwarding_history_info'' ''forwarding_history_info''
              [''peer_alias_in'', ''peer_alias_out'', ''amount_in'', ''amount_out'', ''fee'',
               ''channel_id_in'', ''channel_id_out'', ''timestamp_ns''])"
  "map_of (catalog ns) ''network_capacity_sats_total'' = Some (newGlobalMetric ns ''network_capacity_sats_total'' ''network_capacity_sats_total'' [])"
  "map_of (catalog ns) ''network_channels_total'' = Some (newGlobalMetric ns ''network_channels_total'' ''network_channels_total'' [])"
  "map_of (catalog ns) ''network_nodes_total'' = Some (newGlobalMetric ns ''network_nodes_total'' ''network_nodes_total'' [])"
  "map_of (catalog ns) ''instance_info'' = Some (newGlobalMetric ns ''instance_info'' ''instance_info'' [''alias'', ''pubkey'', ''version''])"
  "map_of (catalog ns) ''wallet_balance_sats'' = Some (newGlobalMetric ns ''wallet_balance_sats'' ''The wallet balance.'' [''status''])"
  "map_of (catalog ns) ''peers'' = Some (newGlobalMetric ns ''peers'' ''Number of currently connected peers.'' [])"
  "map_of (catalog ns) ''channels'' = Some (newGlobalMetric ns ''channels'' ''Number of channels'' [''status''])"
  "map_of (catalog ns) ''block_height'' = Some (newGlobalMetric ns ''block_height'' best_block_help [])"
  "map_of (catalog ns) ''synced_to_chain'' = Some (newGlobalMetric ns ''synced_to_chain'' best_block_help [])"
  "map_of (catalog ns) ''channel_limbo_balance_sats'' = Some (newGlobalMetric ns ''channel_limbo_balance_sats'' ''The balance in satoshis encumbered in pending channels'' [])"
  "map_of (catalog ns) ''channels_pending'' = Some (newGlobalMetric ns ''channel_pending'' ''The total pending channels'' [''status'', ''forced''])"
  "map_of (catalog ns) ''channels_waiting_close'' = Some (newGlobalMetric ns ''channel_waiting_close'' ''Channels waiting for closing tx to confirm'' [])"
  "map_of (catalog ns) ''channels_balance_sats'' = Some (newGlobalMetric ns ''channels_balance_sats'' ''Sum of all channel funds available'' [])"
  "map_of (catalog ns) ''channel_balance_sats'' = Some (newGlobalMetric ns ''channel_balance_sats'' ''The channel local balance'' channel_labels)"
  "map_of (catalog ns) ''channel_balance_percentage'' = Some (newGlobalMetric ns ''channel_balance_percentage'' ''The channel local balance'' channel_labels)"
  "map_of (catalog ns) ''peer_info'' = Some (newGlobalMetric ns ''peer_info'' ''peer_info'' [''addr'', ''remote_pubkey'', ''direction''])"
  "map_of (catalog ns) ''peer_info_received_bytes_total'' = Some (newGlobalMetric ns ''peer_info_received_bytes_total'' ''peer_info_received_bytes_total'' [''addr''])"
  "map_of (catalog ns) ''peer_info_sent_bytes_total'' = Some (newGlobalMetric ns ''peer_info_sent_bytes_total'' ''peer_info_sent_bytes_total'' [''addr''])"
  by (simp_all add: catalog_def)


lemma seq_Through: "snd s = Through \<Longrightarrow> seq s t = (fst s @ fst t, snd t)"
  by (simp add: seq_def)

lemma seq_emit: "seq (emit e) t = (e # fst t, snd t)"
  by (simp add: seq_def emit_def)

lemma seq_skip: "seq skip t = t"
  by (simp add: seq_def skip_def)

lemma seq_pair: "seq (evs, Through) t = (evs @ fst t, snd t)"
  by (simp add: seq_def)

lemma variableLabels_newGlobalMetric: "variableLabels (newGlobalMetric ns n d ls) = ls"
  by (simp add: newGlobalMetric_def NewDesc_def)

lemma fqName_newGlobalMetric: "fqName (newGlobalMetric ns n d ls) = ns @ ''_'' @ n"
  by (simp add: newGlobalMetric_def NewDesc_def)

lemma valid_catalog:
  assumes "metrics c = catalog ns" and "descriptors_valid c"
  shows "err_desc (newGlobalMetric ns ''lnd_up'' ''up'' []) = None"
    and "err_desc (newGlobalMetric ns ''forwarding_history_info'' ''forwarding_history_info''
              [''peer_alias_in'', ''peer_alias_out'', ''amount_in'', ''amount_out'', ''fee'',
               ''channel_id_in'', ''channel_id_out'', ''timestamp_ns'']) = None"
    and "err_desc (newGlobalMetric ns ''network_capacity_sats_total'' ''network_capacity_sats_total'' []) = None"
    and "err_desc (newGlobalMetric ns ''network_channels_total'' ''network_channels_total'' []) = None"
    and "err_desc (newGlobalMetric ns ''network_nodes_total'' ''network_nodes_total'' []) = None"
    and "err_desc (newGlobalMetric ns ''instance_info'' ''instance_info'' [''alias'', ''pubkey'', ''version'']) = None"
    and "err_desc (newGlobalMetric ns ''wallet_balance_sats'' ''The wallet balance.'' [''status'']) = None"
    and "err_desc (newGlobalMetric ns ''peers'' ''Number of currently connected peers.'' []) = None"
    and "err_desc (newGlobalMetric ns ''channels'' ''Number of channels'' [''status'']) = None"
    and "err_desc (newGlobalMetric ns ''block_height'' best_block_help []) = None"
    and "err_desc (newGlobalMetric ns ''synced_to_chain'' best_block_help []) = None"
    and "err_desc (newGlobalMetric ns ''channel_limbo_balance_sats'' ''The balance in satoshis encumbered in pending channels'' []) = None"
    and "err_desc (newGlobalMetric ns ''channel_pending'' ''The total pending channels'' [''status'', ''forced'']) = None"
    and "err_desc (newGlobalMetric ns ''channel_waiting_close'' ''Channels waiting for closing tx to confirm'' []) = None"
    and "err_desc (newGlobalMetric ns ''channels_balance_sats'' ''Sum of all channel funds available'' []) = None"
    and "err_desc (newGlobalMetric ns ''channel_balance_sats'' ''The channel local balance'' channel_labels) = None"
    and "err_desc (newGlobalMetric ns ''channel_balance_percentage'' ''The channel local balance'' channel_labels) = None"
    and "err_desc (newGlobalMetric ns ''peer_info'' ''peer_info'' [''addr'', ''remote_pubkey'', ''direction'']) = None"
    and "err_desc (newGlobalMetric ns ''peer_info_received_bytes_total'' ''peer_info_received_bytes_total'' [''addr'']) = None"
    and "err_desc (newGlobalMetric ns ''peer_info_sent_bytes_total'' ''peer_info_sent_bytes_total'' [''addr'']) = None"
  using assms by (simp_all add: descriptors_valid_def catalog_def)


lemma valid_from_ascii: "list_all (\<lambda>b. (of_char b :: nat) < 128) s \<Longrightarrow> valid_from [] s"
  by (induction s) (simp_all add: first_def)

lemma ValidString_ascii: "list_all (\<lambda>b. (of_char b :: nat) < 128) s \<Longrightarrow> ValidString s"
  by (simp add: ValidString_def valid_from_ascii)

lemma ascii_format_decimal: "list_all (\<lambda>b. (of_char b :: nat) < 128) (format_decimal n)"
proof (induction n rule: format_decimal.induct)
  case (1 n)
  have d: "(of_char (digit_char k) :: nat) < 128" if "k < 10" for k
    using that by (simp add: digit_char_def)
  show ?case
  proof (cases "n < 10")
    case True
    then show ?thesis
      by (subst format_decimal.simps) (simp add: d)
  next
    case False
    then show ?thesis
      using 1 by (subst format_decimal.simps) (simp add: d)
  qed
qed

lemma label_valid:
  "ValidString (FormatUint x)"
  "ValidString (FormatInt y)"
  "ValidString (FormatBool b)"
  "ValidString ''active''"
  "ValidString ''pending''"
  "ValidString ''inactive''"
  "ValidString ''unconfirmed''"
  "ValidString ''confirmed''"
  "ValidString ''opening''"
  "ValidString ''closing''"
  "ValidString ''false''"
  "ValidString ''true''"
  "ValidString ''inbound''"
  "ValidString ''outbound''"
  by (simp_all add: ValidString_ascii FormatUint_def FormatInt_def FormatBool_def
      ascii_format_decimal)

lemma find_invalid: "list_all ValidString lvs \<Longrightarrow> find (\<lambda>v. \<not> ValidString v) lvs = None"
  by (induction lvs) simp_all

lemma send_ok:
  "err_desc d = None \<Longrightarrow> length lvs = length (variableLabels d) \<Longrightarrow> list_all ValidString lvs \<Longrightarrow>
   send (MustNewConstMetric (Some d) t v lvs) =
     ([Send \<lparr>desc = d, valType = t, val = v, labelValues = lvs\<rparr>], Through)"
  by (simp add: send_def MustNewConstMetric_def emit_def find_invalid)

lemmas probe_simps = metric_def catalog_lookup send_ok variableLabels_newGlobalMetric
  seq_emit seq_skip seq_Through logf_def emit_def skip_def channel_labels_def label_valid

lemma block_map_eq:
  "(\<And>x. x \<in> set xs \<Longrightarrow> f x = (map Send (g x), Through)) \<Longrightarrow>
   block (map f xs) = (map Send (concat (map g xs)), Through)"
  by (induction xs) (simp_all add: skip_def seq_pair)

lemma sent_append: "sent (xs @ ys) = sent xs @ sent ys"
  by (induction xs rule: sent.induct) simp_all

lemma calls_append: "calls (xs @ ys) = calls xs @ calls ys"
  by (induction xs rule: calls.induct) simp_all

lemma deferred_append: "deferred (xs @ ys) = deferred ys @ deferred xs"
  by (induction xs rule: deferred.induct) simp_all

subsection \<open>The probes of a well-formed exporter, written out\<close>

lemma info_samples_eq:
  assumes "metrics c = catalog ns" and "descriptors_valid c" and "utf8_info stats"
  shows "info_samples c stats = (map Send (info_metrics ns stats), Through)"
  using assms(1,3)
  by (simp add: info_samples_def info_metrics_def gauge_def boolToFloat_def utf8_info_def
      probe_simps valid_catalog [OF assms(1,2)])

lemma wallet_probe_eq:
  assumes "metrics c = catalog ns" and "descriptors_valid c"
  shows "wallet_probe c w =
     (Call WalletBalanceRequest #
        (case WalletBalance w of
           Inl e \<Rightarrow> [Log (''rpcClient.GetWalletStats err: '' @ e)]
         | Inr r \<Rightarrow> map Send (wallet_metrics ns r)), Through)"
  using assms(1)
  by (simp add: wallet_probe_def wallet_metrics_def gauge_def probe_simps
      valid_catalog [OF assms] split: sum.splits)

lemma pending_probe_eq:
  assumes "metrics c = catalog ns" and "descriptors_valid c"
  shows "pending_probe c w =
     (Call PendingChannelsRequest #
        (case PendingChannels w of
           Inl e \<Rightarrow> [Log (''rpcClient.GetPendingChannelsStats err: '' @ e)]
         | Inr r \<Rightarrow> map Send (pending_metrics ns r)), Through)"
  using assms(1)
  by (simp add: pending_probe_def pending_metrics_def gauge_def probe_simps
      valid_catalog [OF assms] split: sum.splits)

lemma channels_balance_probe_eq:
  assumes "metrics c = catalog ns" and "descriptors_valid c"
  shows "channels_balance_probe c w =
     (Call ChannelBalanceRequest #
        (case ChannelBalance w of
           Inl e \<Rightarrow> [Log (''rpcClient.GetChannelsBalanceStats err: '' @ e)]
         | Inr r \<Rightarrow> map Send (channels_balance_metrics ns r)), Through)"
  using assms(1)
  by (simp add: channels_balance_probe_def channels_balance_metrics_def gauge_def probe_simps
      valid_catalog [OF assms] split: sum.splits)

lemma network_probe_eq:
  assumes "metrics c = catalog ns" and "descriptors_valid c"
  shows "network_probe c w =
     (Call NetworkInfoRequest #
        (case GetNetworkInfo w of
           Inl e \<Rightarrow> []
         | Inr r \<Rightarrow> map Send (network_metrics ns r)), Through)"
  using assms(1)
  by (simp add: network_probe_def network_metrics_def gauge_def probe_simps
      valid_catalog [OF assms] split: sum.splits)

lemma forwarding_sample_eq:
  assumes "metrics c = catalog ns" and "descriptors_valid c" and "utf8_event f"
  shows "forwarding_sample c f = (map Send (forwarding_metrics ns \<lparr>ForwardingEvents = [f]\<rparr>), Through)"
  using assms(1,3)
  by (simp add: forwarding_sample_def forwarding_metrics_def gauge_def utf8_event_def probe_simps
      valid_catalog [OF assms(1,2)])

lemma forwarding_metrics_concat:
  "forwarding_metrics ns r =
     concat (map (\<lambda>f. forwarding_metrics ns \<lparr>ForwardingEvents = [f]\<rparr>) (ForwardingEvents r))"
  by (induction "ForwardingEvents r" arbitrary: r) (simp_all add: forwarding_metrics_def)

lemma sent_map_Send: "sent (map Send ms) = ms"
  by (induction ms) simp_all

lemma forwarding_probe_eq:
  assumes "metrics c = catalog ns" and "descriptors_valid c" and "utf8_answers w"
  shows "forwarding_probe c w =
     (if exportPaymentMetrics c
      then Call ForwardingHistoryRequest #
        (case ForwardingHistory w of
           Inl e \<Rightarrow> [Log (''rpcClient.ForwardingHistory err: '' @ e)]
         | Inr r \<Rightarrow> map Send (forwarding_metrics ns r))
      else [], Through)"
proof (cases "ForwardingHistory w")
  case (Inl e)
  then show ?thesis
    by (simp add: forwarding_probe_def seq_pair emit_def logf_def skip_def)
next
  case (Inr r)
  then have "list_all utf8_event (ForwardingEvents r)"
    using assms(3) by (simp add: utf8_answers_def)
  then have "block (map (forwarding_sample c) (ForwardingEvents r)) =
      (map Send (concat (map (\<lambda>f. forwarding_metrics ns \<lparr>ForwardingEvents = [f]\<rparr>)
         (ForwardingEvents r))), Through)"
    by (intro block_map_eq forwarding_sample_eq [OF assms(1,2)]) (simp add: list_all_iff)
  then show ?thesis
    using Inr forwarding_metrics_concat [of ns r]
    by (simp add: forwarding_probe_def seq_pair emit_def skip_def)
qed

lemma channel_samples_eq:
  assumes "metrics c = catalog ns" and "descriptors_valid c" and "utf8_channel ch"
  shows "channel_samples c ch =
     (map Send
        ((if 0 < realCapacity ch
          then [ratio_sample ns ch
                  (float64_div (float64_of_int (sint (LocalBalance ch))) (realCapacity ch))]
          else []) @ [balance_sample ns ch]), Through)"
  using assms(1,3)
  by (simp add: channel_samples_def ratio_sample_def balance_sample_def lbls_def utf8_channel_def
      probe_simps valid_catalog [OF assms(1,2), unfolded channel_labels_def])

lemma channels_probe_eq:
  assumes "metrics c = catalog ns" and "descriptors_valid c" and "utf8_answers w"
  shows "channels_probe c w =
     (Call ListChannelsRequest #
        (case ListChannels w of
           Inl e \<Rightarrow> [Log (''rpcClient.GetChannelBalanceStats err: '' @ e)]
         | Inr r \<Rightarrow> map Send (channels_metrics ns r)), Through)"
proof (cases "ListChannels w")
  case (Inl e)
  then show ?thesis
    by (simp add: channels_probe_def seq_pair emit_def logf_def)
next
  case (Inr r)
  then have "list_all utf8_channel (Channels r)"
    using assms(3) by (simp add: utf8_answers_def)
  then have "block (map (channel_samples c) (Channels r)) =
      (map Send (channels_metrics ns r), Through)"
    unfolding channels_metrics_def
    by (intro block_map_eq channel_samples_eq [OF assms(1,2)]) (simp add: list_all_iff)
  then show ?thesis
    using Inr by (simp add: channels_probe_def seq_pair emit_def)
qed

lemma peer_samples_eq:
  assumes "metrics c = catalog ns" and "descriptors_valid c" and "utf8_peer p"
  shows "peer_samples c p = (map Send (peers_metrics ns \<lparr>Peers = [p]\<rparr>), Through)"
  using assms(1,3)
  by (simp add: peer_samples_def peers_metrics_def gauge_def counter_def Let_def utf8_peer_def
      probe_simps valid_catalog [OF assms(1,2)])

lemma peers_metrics_concat:
  "peers_metrics ns r = concat (map (\<lambda>p. peers_metrics ns \<lparr>Peers = [p]\<rparr>) (Peers r))"
  by (induction "Peers r" arbitrary: r) (simp_all add: peers_metrics_def)

lemma peers_probe_eq:
  assumes "metrics c = catalog ns" and "descriptors_valid c" and "utf8_answers w"
  shows "peers_probe c w =
     (if exportPeerMetrics c
      then Call ListPeersRequest #
        (case ListPeers w of
           Inl e \<Rightarrow> [Log (''rpcClient.ListPeers err: '' @ e)]
         | Inr r \<Rightarrow> map Send (peers_metrics ns r))
      else [], Through)"
proof (cases "ListPeers w")
  case (Inl e)
  then show ?thesis
    by (simp add: peers_probe_def seq_pair emit_def logf_def skip_def)
next
  case (Inr r)
  then have "list_all utf8_peer (Peers r)"
    using assms(3) by (simp add: utf8_answers_def)
  then have "block (map (peer_samples c) (Peers r)) =
      (map Send (concat (map (\<lambda>p. peers_metrics ns \<lparr>Peers = [p]\<rparr>) (Peers r))), Through)"
    by (intro block_map_eq peer_samples_eq [OF assms(1,2)]) (simp add: list_all_iff)
  then show ?thesis
    using Inr peers_metrics_concat [of ns r]
    by (simp add: peers_probe_def seq_pair emit_def skip_def)
qed

lemma lnd_up_eq:
  assumes "metrics c = catalog ns" and "descriptors_valid c"
  shows "lnd_up c v = ([Send (liveness ns v)], Through)"
  using assms(1) by (simp add: lnd_up_def liveness_def probe_simps valid_catalog [OF assms])

lemma utf8_answers_info: "utf8_answers w \<Longrightarrow> GetInfo w = Inr stats \<Longrightarrow> utf8_info stats"
  by (simp add: utf8_answers_def)

subsection \<open>What each probe sends\<close>

lemma sent_info_samples:
  assumes "metrics c = catalog ns" and "descriptors_valid c" and "utf8_info stats"
  shows "sent (fst (info_samples c stats)) = info_metrics ns stats"
  by (simp add: info_samples_eq [OF assms] sent_map_Send)

lemma sent_wallet_probe:
  assumes "metrics c = catalog ns" and "descriptors_valid c"
  shows "sent (fst (wallet_probe c w)) = answered (wallet_metrics ns) (WalletBalance w)"
  by (simp add: wallet_probe_eq [OF assms] answered_def sent_map_Send split: sum.splits)

lemma sent_pending_probe:
  assumes "metrics c = catalog ns" and "descriptors_valid c"
  shows "sent (fst (pending_probe c w)) = answered (pending_metrics ns) (PendingChannels w)"
  by (simp add: pending_probe_eq [OF assms] answered_def sent_map_Send split: sum.splits)

lemma sent_channels_balance_probe:
  assumes "metrics c = catalog ns" and "descriptors_valid c"
  shows "sent (fst (channels_balance_probe c w)) =
     answered (channels_balance_metrics ns) (ChannelBalance w)"
  by (simp add: channels_balance_probe_eq [OF assms] answered_def sent_map_Send split: sum.splits)

lemma sent_forwarding_probe:
  assumes "metrics c = catalog ns" and "descriptors_valid c" and "utf8_answers w"
  shows "sent (fst (forwarding_probe c w)) =
     (if exportPaymentMetrics c then answered (forwarding_metrics ns) (ForwardingHistory w) else [])"
  by (simp add: forwarding_probe_eq [OF assms] answered_def sent_map_Send split: sum.splits)

lemma sent_network_probe:
  assumes "metrics c = catalog ns" and "descriptors_valid c"
  shows "sent (fst (network_probe c w)) = answered (network_metrics ns) (GetNetworkInfo w)"
  by (simp add: network_probe_eq [OF assms] answered_def sent_map_Send split: sum.splits)

lemma sent_channels_probe:
  assumes "metrics c = catalog ns" and "descriptors_valid c" and "utf8_answers w"
  shows "sent (fst (channels_probe c w)) = answered (channels_metrics ns) (ListChannels w)"
  by (simp add: channels_probe_eq [OF assms] answered_def sent_map_Send split: sum.splits)

lemma sent_peers_probe:
  assumes "metrics c = catalog ns" and "descriptors_valid c" and "utf8_answers w"
  shows "sent (fst (peers_probe c w)) =
     (if exportPeerMetrics c then answered (peers_metrics ns) (ListPeers w) else [])"
  by (simp add: peers_probe_eq [OF assms] answered_def sent_map_Send split: sum.splits)

subsection \<open>The events of the pieces, whatever the catalog\<close>

lemma probe_event_send: "list_all probe_event (fst (send (MustNewConstMetric d t v lvs)))"
  by (simp add: send_def MustNewConstMetric_def emit_def consistent_def split: option.splits)

lemma list_all_seq:
  "list_all Q (fst s) \<Longrightarrow> list_all Q (fst t) \<Longrightarrow> list_all Q (fst (seq s t))"
  by (simp add: seq_def split: ending.splits)

lemma list_all_block:
  "(\<And>s. s \<in> set ss \<Longrightarrow> list_all Q (fst s)) \<Longrightarrow> list_all Q (fst (block ss))"
  by (induction ss) (simp_all add: skip_def list_all_seq)

lemma list_all_block_map:
  "(\<And>x. list_all Q (fst (f x))) \<Longrightarrow> list_all Q (fst (block (map f xs)))"
  by (induction xs) (simp_all add: skip_def list_all_seq)

lemmas event_simps = probe_event_send list_all_seq list_all_block logf_def emit_def skip_def

lemma info_samples_events: "list_all probe_event (fst (info_samples c stats))"
  unfolding info_samples_def by (rule list_all_block) (auto simp: probe_event_send)

lemma wallet_probe_events: "list_all probe_event (fst (wallet_probe c w))"
  unfolding wallet_probe_def
  by (intro list_all_seq list_all_block) (auto simp: event_simps split: sum.splits)

lemma pending_probe_events: "list_all probe_event (fst (pending_probe c w))"
  unfolding pending_probe_def
  by (intro list_all_seq) (auto simp: event_simps split: sum.splits)

lemma channels_balance_probe_events: "list_all probe_event (fst (channels_balance_probe c w))"
  unfolding channels_balance_probe_def
  by (intro list_all_seq) (auto simp: event_simps split: sum.splits)

lemma forwarding_probe_events: "list_all probe_event (fst (forwarding_probe c w))"
  unfolding forwarding_probe_def
  by (auto simp: event_simps forwarding_sample_def split: sum.splits
      intro!: list_all_seq list_all_block_map)

lemma network_probe_events: "list_all probe_event (fst (network_probe c w))"
  unfolding network_probe_def
  by (intro list_all_seq) (auto simp: event_simps split: sum.splits)

lemma channel_samples_events: "list_all probe_event (fst (channel_samples c ch))"
  unfolding channel_samples_def
  by (intro list_all_seq) (auto simp: event_simps)

lemma channels_probe_events: "list_all probe_event (fst (channels_probe c w))"
  unfolding channels_probe_def
  by (intro list_all_seq)
     (auto simp: event_simps split: sum.splits intro!: list_all_block_map channel_samples_events)

lemma peer_samples_events: "list_all probe_event (fst (peer_samples c p))"
  unfolding peer_samples_def Let_def
  by (rule list_all_block) (auto simp: event_simps)

lemma peers_probe_events: "list_all probe_event (fst (peers_probe c w))"
  unfolding peers_probe_def
  by (auto simp: event_simps split: sum.splits
      intro!: list_all_seq list_all_block_map peer_samples_events)

lemma lnd_up_events: "list_all probe_event (fst (lnd_up c v))"
  by (simp add: lnd_up_def probe_event_send)

lemma getGrpcClient_events: "list_all dial_event (fst (getGrpcClient w a t m))"
  by (simp add: getGrpcClient_def split: sum.splits option.splits)


subsection \<open>The shape of every trace\<close>

lemma sent_dial: "list_all dial_event es \<Longrightarrow> sent es = []"
  by (induction es rule: sent.induct) simp_all

lemma calls_dial: "list_all dial_event es \<Longrightarrow> calls es = []"
  by (induction es rule: calls.induct) simp_all

lemma deferred_dial: "list_all dial_event es \<Longrightarrow> deferred es = []"
  by (induction es rule: deferred.induct) simp_all

lemma deferred_probe: "list_all probe_event es \<Longrightarrow> deferred es = []"
  by (induction es rule: deferred.induct) simp_all

lemma sent_consistent: "list_all probe_event es \<Longrightarrow> list_all consistent (sent es)"
  by (induction es rule: sent.induct) simp_all

lemma tail_events:
  "list_all probe_event
     (fst (block [info_samples c stats, wallet_probe c w, pending_probe c w,
        channels_balance_probe c w, forwarding_probe c w, network_probe c w,
        channels_probe c w, peers_probe c w, lnd_up c 1]))"
  by (rule list_all_block)
     (auto simp: info_samples_events wallet_probe_events pending_probe_events
        channels_balance_probe_events forwarding_probe_events network_probe_events
        channels_probe_events peers_probe_events lnd_up_events)

lemma seq_skip_right: "seq s skip = s"
  by (cases s) (simp add: seq_def skip_def split: ending.splits)

lemma seq_return: "fst (seq s return) = fst s"
  by (simp add: seq_def return_def split: ending.splits)

lemma Collect_body_shape:
  "\<exists>tail. list_all probe_event tail \<and>
     fst (Collect_body c w) =
       Lock # Defer Unlock # fst (getGrpcClient w (rpcAddr c) (tlsCertPath c) (macaroonPath c)) @
       (case snd (getGrpcClient w (rpcAddr c) (tlsCertPath c) (macaroonPath c)) of
          Inl err \<Rightarrow> tail
        | Inr con \<Rightarrow> Defer (Close con) # WithTimeout (15 * Second) # Defer Cancel # tail)"
proof (cases "getGrpcClient w (rpcAddr c) (tlsCertPath c) (macaroonPath c)")
  case (Pair evs r)
  show ?thesis
  proof (cases r)
    case (Inl err)
    let ?tail = "Log (''getGrpcClient() err: '' @ err) # fst (lnd_up c 0)"
    have "list_all probe_event ?tail"
      by (simp add: lnd_up_events)
    moreover have "fst (Collect_body c w) = Lock # Defer Unlock # evs @ ?tail"
      using Pair Inl
      by (simp add: Collect_body_def seq_emit seq_return seq_pair seq_skip_right logf_def)
    ultimately show ?thesis
      using Pair Inl by simp
  next
    case (Inr con)
    show ?thesis
    proof (cases "GetInfo w")
      case (Inl err)
      let ?tail = "Call GetInfoRequest # Log (''rpcClient.GetInfo() err: '' @ err) # fst (lnd_up c 0)"
      have "list_all probe_event ?tail"
        by (simp add: lnd_up_events)
      moreover have "fst (Collect_body c w) =
          Lock # Defer Unlock # evs @ Defer (Close con) # WithTimeout (15 * Second) # Defer Cancel # ?tail"
        using Pair Inr Inl
        by (simp add: Collect_body_def seq_emit seq_return seq_pair seq_skip_right logf_def)
      ultimately show ?thesis
        using Pair Inr by simp
    next
      case stats: (Inr stats)
      let ?tail = "Call GetInfoRequest # fst (block [info_samples c stats, wallet_probe c w, pending_probe c w,
        channels_balance_probe c w, forwarding_probe c w, network_probe c w,
        channels_probe c w, peers_probe c w, lnd_up c 1])"
      have "list_all probe_event ?tail"
        using tail_events [of c stats w] by simp
      moreover have "fst (Collect_body c w) =
          Lock # Defer Unlock # evs @ Defer (Close con) # WithTimeout (15 * Second) # Defer Cancel # ?tail"
        using Pair Inr stats
        by (simp add: Collect_body_def seq_skip_right seq_emit seq_pair)
      ultimately show ?thesis
        using Pair Inr by simp
    qed
  qed
qed

lemma Collect_shape:
  "\<exists>tail. list_all probe_event tail \<and>
     fst (Collect c w) =
       Lock # Defer Unlock # fst (getGrpcClient w (rpcAddr c) (tlsCertPath c) (macaroonPath c)) @
       (case snd (getGrpcClient w (rpcAddr c) (tlsCertPath c) (macaroonPath c)) of
          Inl err \<Rightarrow> tail @ [Unlock]
        | Inr con \<Rightarrow> Defer (Close con) # WithTimeout (15 * Second) # Defer Cancel # tail @
            [Cancel, Close con, Unlock])"
proof -
  obtain tail where t: "list_all probe_event tail"
    and b: "fst (Collect_body c w) =
       Lock # Defer Unlock # fst (getGrpcClient w (rpcAddr c) (tlsCertPath c) (macaroonPath c)) @
       (case snd (getGrpcClient w (rpcAddr c) (tlsCertPath c) (macaroonPath c)) of
          Inl err \<Rightarrow> tail
        | Inr con \<Rightarrow> Defer (Close con) # WithTimeout (15 * Second) # Defer Cancel # tail)"
    using Collect_body_shape by blast
  have d: "deferred (fst (getGrpcClient w (rpcAddr c) (tlsCertPath c) (macaroonPath c))) = []"
    by (rule deferred_dial) (rule getGrpcClient_events)
  have "fst (Collect c w) = fst (Collect_body c w) @ deferred (fst (Collect_body c w))"
    by (simp add: Collect_def split: prod.splits)
  then show ?thesis
    using t b d
    by (auto simp: deferred_append deferred_probe split: sum.splits intro!: exI [of _ tail])
qed


subsection \<open>Which probe a sample comes from\<close>

lemmas origin_simps = from_probe_def fqName_newGlobalMetric gauge_def counter_def answered_def

lemma info_metrics_origin: "list_all (from_probe ns GetInfoRequest) (info_metrics ns stats)"
  by (simp add: info_metrics_def origin_simps)

lemma wallet_metrics_origin:
  "list_all (from_probe ns WalletBalanceRequest) (answered (wallet_metrics ns) a)"
  by (simp add: wallet_metrics_def origin_simps split: sum.splits)

lemma pending_metrics_origin:
  "list_all (from_probe ns PendingChannelsRequest) (answered (pending_metrics ns) a)"
  by (simp add: pending_metrics_def origin_simps split: sum.splits)

lemma channels_balance_metrics_origin:
  "list_all (from_probe ns ChannelBalanceRequest) (answered (channels_balance_metrics ns) a)"
  by (simp add: channels_balance_metrics_def origin_simps split: sum.splits)

lemma forwarding_metrics_origin:
  "list_all (from_probe ns ForwardingHistoryRequest) (answered (forwarding_metrics ns) a)"
  by (auto simp: forwarding_metrics_def origin_simps list_all_iff split: sum.splits)

lemma network_metrics_origin:
  "list_all (from_probe ns NetworkInfoRequest) (answered (network_metrics ns) a)"
  by (simp add: network_metrics_def origin_simps split: sum.splits)

lemma channels_metrics_origin:
  "list_all (from_probe ns ListChannelsRequest) (answered (channels_metrics ns) a)"
  by (auto simp: channels_metrics_def ratio_sample_def balance_sample_def origin_simps
      list_all_iff split: sum.splits)

lemma peers_metrics_origin:
  "list_all (from_probe ns ListPeersRequest) (answered (peers_metrics ns) a)"
  by (auto simp: peers_metrics_def origin_simps list_all_iff split: sum.splits)

lemma liveness_origin: "\<not> from_probe ns r (liveness ns v)"
  by (cases r) (simp_all add: from_probe_def liveness_def fqName_newGlobalMetric)

lemma probe_names_disjoint:
  "n \<in> set (probe_names r) \<Longrightarrow> n \<in> set (probe_names r') \<Longrightarrow> r = r'"
  by (cases r; cases r'; simp; force)

lemma from_probe_unique: "from_probe ns r m \<Longrightarrow> from_probe ns r' m \<Longrightarrow> r = r'"
  by (auto simp: from_probe_def dest: probe_names_disjoint)

subsection \<open>The three ways through Collect\<close>

lemma Collect_connect_failed:
  assumes "metrics c = catalog ns" and "descriptors_valid c"
    and "getGrpcClient w (rpcAddr c) (tlsCertPath c) (macaroonPath c) = (evs, Inl err)"
  shows "Collect c w =
    (Lock # Defer Unlock # evs @
       [Log (''getGrpcClient() err: '' @ err), Send (liveness ns 0), Unlock], Return)"
proof -
  have "deferred evs = []"
    using getGrpcClient_events [of w "rpcAddr c" "tlsCertPath c" "macaroonPath c"] assms(3)
    by (simp add: deferred_dial)
  then show ?thesis
    using assms(3)
    by (simp add: Collect_def Collect_body_def lnd_up_eq [OF assms(1,2)] seq_emit seq_pair
        seq_skip_right logf_def return_def deferred_append)
qed

lemma Collect_GetInfo_failed:
  assumes "metrics c = catalog ns" and "descriptors_valid c"
    and "getGrpcClient w (rpcAddr c) (tlsCertPath c) (macaroonPath c) = (evs, Inr con)"
    and "GetInfo w = Inl err"
  shows "Collect c w =
    (Lock # Defer Unlock # evs @
       [Defer (Close con), WithTimeout (15 * Second), Defer Cancel, Call GetInfoRequest,
        Log (''rpcClient.GetInfo() err: '' @ err), Send (liveness ns 0),
        Cancel, Close con, Unlock], Return)"
proof -
  have "deferred evs = []"
    using getGrpcClient_events [of w "rpcAddr c" "tlsCertPath c" "macaroonPath c"] assms(3)
    by (simp add: deferred_dial)
  then show ?thesis
    using assms(3,4)
    by (simp add: Collect_def Collect_body_def lnd_up_eq [OF assms(1,2)] seq_emit seq_pair
        seq_skip_right logf_def return_def deferred_append)
qed

lemma Collect_probing:
  assumes "metrics c = catalog ns" and "descriptors_valid c" and "utf8_answers w"
    and "getGrpcClient w (rpcAddr c) (tlsCertPath c) (macaroonPath c) = (evs, Inr con)"
    and "GetInfo w = Inr stats"
  shows "Collect c w =
    (Lock # Defer Unlock # evs @
       [Defer (Close con), WithTimeout (15 * Second), Defer Cancel, Call GetInfoRequest] @
       fst (info_samples c stats) @ fst (wallet_probe c w) @ fst (pending_probe c w) @
       fst (channels_balance_probe c w) @ fst (forwarding_probe c w) @ fst (network_probe c w) @
       fst (channels_probe c w) @ fst (peers_probe c w) @
       [Send (liveness ns 1), Cancel, Close con, Unlock], Return)"
proof -
  note cat = assms(1,2)
  have through:
    "snd (info_samples c stats) = Through" "snd (wallet_probe c w) = Through"
    "snd (pending_probe c w) = Through" "snd (channels_balance_probe c w) = Through"
    "snd (forwarding_probe c w) = Through" "snd (network_probe c w) = Through"
    "snd (channels_probe c w) = Through" "snd (peers_probe c w) = Through"
    by (simp_all add: info_samples_eq [OF cat utf8_answers_info [OF assms(3,5)]]
        wallet_probe_eq [OF cat] pending_probe_eq [OF cat] channels_balance_probe_eq [OF cat]
        forwarding_probe_eq [OF cat assms(3)] network_probe_eq [OF cat]
        channels_probe_eq [OF cat assms(3)] peers_probe_eq [OF cat assms(3)])
  note quiet = deferred_probe [OF info_samples_events] deferred_probe [OF wallet_probe_events]
    deferred_probe [OF pending_probe_events] deferred_probe [OF channels_balance_probe_events]
    deferred_probe [OF forwarding_probe_events] deferred_probe [OF network_probe_events]
    deferred_probe [OF channels_probe_events] deferred_probe [OF peers_probe_events]
  have d: "deferred evs = []"
    using getGrpcClient_events [of w "rpcAddr c" "tlsCertPath c" "macaroonPath c"] assms(4)
    by (simp add: deferred_dial)
  have body: "Collect_body c w =
    (Lock # Defer Unlock # evs @
       [Defer (Close con), WithTimeout (15 * Second), Defer Cancel, Call GetInfoRequest] @
       fst (info_samples c stats) @ fst (wallet_probe c w) @ fst (pending_probe c w) @
       fst (channels_balance_probe c w) @ fst (forwarding_probe c w) @ fst (network_probe c w) @
       fst (channels_probe c w) @ fst (peers_probe c w) @
       [Send (liveness ns 1)], Through)"
    using assms(4,5)
    by (simp add: Collect_body_def lnd_up_eq [OF cat] seq_emit seq_pair seq_skip_right
        seq_Through through)
  show ?thesis
    by (simp add: Collect_def body deferred_append quiet d)
qed


lemma Collect_sent_consistent: "list_all consistent (sent (fst (Collect c w)))"
proof -
  obtain tail where t: "list_all probe_event tail"
    and tr: "fst (Collect c w) =
       Lock # Defer Unlock # fst (getGrpcClient w (rpcAddr c) (tlsCertPath c) (macaroonPath c)) @
       (case snd (getGrpcClient w (rpcAddr c) (tlsCertPath c) (macaroonPath c)) of
          Inl err \<Rightarrow> tail @ [Unlock]
        | Inr con \<Rightarrow> Defer (Close con) # WithTimeout (15 * Second) # Defer Cancel # tail @
            [Cancel, Close con, Unlock])"
    using Collect_shape by blast
  have "sent (fst (Collect c w)) = sent tail"
    unfolding tr
    by (simp add: sent_append sent_dial [OF getGrpcClient_events] split: sum.splits)
  then show ?thesis
    using t by (simp add: sent_consistent)
qed

lemma Collect_returns:
  assumes "metrics c = catalog ns" and "descriptors_valid c" and "utf8_answers w"
  shows "snd (Collect c w) = Return"
proof -
  note cat = assms(1,2)
  obtain evs r where g: "getGrpcClient w (rpcAddr c) (tlsCertPath c) (macaroonPath c) = (evs, r)"
    by (cases "getGrpcClient w (rpcAddr c) (tlsCertPath c) (macaroonPath c)")
  show ?thesis
  proof (cases r)
    case (Inl err)
    with g Collect_connect_failed [OF cat] show ?thesis by simp
  next
    case (Inr con)
    show ?thesis
    proof (cases "GetInfo w")
      case (Inl err)
      with g Inr Collect_GetInfo_failed [OF cat] show ?thesis by simp
    next
      case stats: (Inr stats)
      with g Inr Collect_probing [OF assms] show ?thesis by simp
    qed
  qed
qed

subsection \<open>float64 on integers\<close>

lemma roundEven_of_int: "roundEven (of_int k) = k"
  by (simp add: roundEven_def)

lemma roundEven_ge_floor: "\<lfloor>y\<rfloor> \<le> roundEven y"
  by (simp add: roundEven_def Let_def)

lemma roundEven_nonpos: "y \<le> 0 \<Longrightarrow> roundEven y \<le> 0"
proof -
  assume y: "y \<le> 0"
  show ?thesis
  proof (cases "y = 0")
    case True
    then show ?thesis using roundEven_of_int [of 0] by simp
  next
    case False
    with y have "y < 0" by simp
    then have "\<lfloor>y\<rfloor> \<le> -1" by (simp add: floor_le_iff)
    then show ?thesis by (simp add: roundEven_def Let_def)
  qed
qed

lemma roundEven_minus: "roundEven (- y) = - roundEven y"
proof (cases "y = of_int \<lfloor>y\<rfloor>")
  case True
  then obtain k where "y = of_int k" ..
  then show ?thesis
    using roundEven_of_int [of "- k"] roundEven_of_int [of k] by simp
next
  case False
  then have "\<lceil>y\<rceil> = \<lfloor>y\<rfloor> + 1"
    by (simp add: ceiling_altdef)
  then have f: "\<lfloor>- y\<rfloor> = - \<lfloor>y\<rfloor> - 1"
    unfolding ceiling_def by linarith
  have "even (- \<lfloor>y\<rfloor> - 1) \<longleftrightarrow> odd \<lfloor>y\<rfloor>"
    by simp
  then show ?thesis
    unfolding roundEven_def Let_def f
    by (auto simp: algebra_simps)
qed

lemma float64_round_minus: "float64_round (- x) = - float64_round x"
  by (simp add: float64_round_def Let_def roundEven_minus)

lemma floor_log2_of_int: "0 < n \<Longrightarrow> floor_log2 (of_int n) = bitlen n - 1"
  by (simp add: floor_log2_def)

lemma ulp_pos: "0 < ulp n"
  by (simp add: ulp_def)

lemma float64_round_of_pos:
  "0 < n \<Longrightarrow> float64_round (of_int n) = of_int (roundEven (of_int n / ulp n)) * ulp n"
  by (simp add: float64_round_def floor_log2_of_int ulp_def Let_def)

lemma ulp_le: 
  assumes "0 < n" shows "ulp n \<le> of_int n"
proof -
  have e: "0 \<le> bitlen n - 1"
    using assms by (simp add: bitlen_alt_def)
  have "ulp n \<le> 2 powi (bitlen n - 1)"
    unfolding ulp_def by (rule power_int_increasing) simp_all
  also have "\<dots> = 2 ^ nat (bitlen n - 1)"
    using e by (simp add: power_int_def)
  also have "\<dots> = of_int (2 ^ nat (bitlen n - 1))"
    by simp
  also have "\<dots> \<le> of_int n"
    using bitlen_bounds [OF assms] by (simp only: of_int_le_iff)
  finally show ?thesis .
qed

lemma float64_round_of_pos_gt: 
  assumes "0 < n" shows "0 < float64_round (of_int n)"
proof -
  have "1 \<le> of_int n / ulp n"
    using ulp_le [OF assms] ulp_pos [of n] by (simp add: pos_le_divide_eq)
  then have "1 \<le> \<lfloor>of_int n / ulp n\<rfloor>"
    by (simp add: le_floor_iff)
  then have "1 \<le> roundEven (of_int n / ulp n)"
    using roundEven_ge_floor [of "of_int n / ulp n"] by linarith
  then have "(0::rat) < of_int (roundEven (of_int n / ulp n))"
    by simp
  then show ?thesis
    unfolding float64_round_of_pos [OF assms] using ulp_pos [of n] by (rule mult_pos_pos)
qed

lemma float64_round_pos_iff: "0 < float64_round (of_int n) \<longleftrightarrow> 0 < n"
proof -
  consider "n = 0" | "0 < n" | "n < 0" by linarith
  then show ?thesis
  proof cases
    case 1
    then show ?thesis by (simp add: float64_round_def)
  next
    case 2
    then show ?thesis by (simp add: float64_round_of_pos_gt)
  next
    case 3
    then have "0 < float64_round (of_int (- n))"
      by (intro float64_round_of_pos_gt) simp
    then have "float64_round (of_int n) < 0"
      using float64_round_minus [of "of_int n"] by simp
    with 3 show ?thesis by simp
  qed
qed

lemma ulp_divides:
  assumes "0 < n" "n \<le> 2 ^ 53"
  shows "\<exists>k. of_int n = of_int k * ulp n"
proof -
  let ?e = "nat (bitlen n - 1)"
  have e0: "0 \<le> bitlen n - 1"
    using assms by (simp add: bitlen_alt_def)
  have lo: "2 ^ ?e \<le> n"
    using bitlen_bounds [OF assms(1)] by simp
  then have "(2::int) ^ ?e \<le> 2 ^ 53"
    using assms(2) by linarith
  then have e: "?e \<le> 53"
    by (rule power_le_imp_le_exp [rotated]) simp
  show ?thesis
  proof (cases "?e = 53")
    case True
    then have n: "n = 2 ^ 53"
      using lo assms(2) by simp
    have "bitlen n - 1 - 52 = 1"
      using True e0 by linarith
    then have u: "ulp n = 2"
      unfolding ulp_def by (simp only: power_int_1_right)
    have "(of_int ((2::int) ^ 53) :: rat) = of_int (2 ^ 52) * 2"
      by simp
    then have "of_int n = of_int (2 ^ 52) * ulp n"
      by (simp only: n [symmetric] u)
    then show ?thesis ..
  next
    case False
    with e have le: "?e \<le> 52" by simp
    then have "bitlen n - 1 - 52 = - int (52 - ?e)"
      using e0 by linarith
    then have "ulp n = 2 powi (- int (52 - ?e))"
      unfolding ulp_def by (simp only:)
    also have "\<dots> = inverse (2 ^ (52 - ?e))"
      by (simp only: power_int_minus power_int_of_nat)
    finally have u: "ulp n = inverse (2 ^ (52 - ?e))" .
    have "(2::rat) ^ (52 - ?e) * inverse (2 ^ (52 - ?e)) = 1"
      by (rule right_inverse) simp
    then have "of_int n = of_int (n * 2 ^ (52 - ?e)) * ulp n"
      unfolding u by (simp only: of_int_mult of_int_power of_int_numeral mult.assoc mult_1_right)
    then show ?thesis ..
  qed
qed

lemma float64_round_of_int_exact_pos:
  assumes "0 < n" "n \<le> 2 ^ 53"
  shows "float64_round (of_int n) = of_int n"
proof -
  obtain k where k: "(of_int n :: rat) = of_int k * ulp n"
    using ulp_divides [OF assms] by blast
  have "ulp n \<noteq> 0"
    using ulp_pos [of n] by simp
  then have "of_int k * ulp n / ulp n = (of_int k :: rat)"
    by (rule nonzero_mult_div_cancel_right)
  then have q: "(of_int n :: rat) / ulp n = of_int k"
    by (simp only: k)
  have "float64_round (of_int n) = of_int (roundEven (of_int n / ulp n)) * ulp n"
    by (rule float64_round_of_pos [OF assms(1)])
  also have "\<dots> = of_int k * ulp n"
    by (simp only: q roundEven_of_int)
  finally show ?thesis
    by (simp only: k)
qed

lemma float64_of_int_exact: "\<bar>n\<bar> \<le> 2 ^ 53 \<Longrightarrow> float64_of_int n = of_int n"
proof -
  assume b: "\<bar>n\<bar> \<le> 2 ^ 53"
  consider "n = 0" | "0 < n" | "n < 0" by linarith
  then show ?thesis
  proof cases
    case 1
    then show ?thesis by (simp add: float64_of_int_def float64_round_def)
  next
    case 2
    with b show ?thesis
      by (simp add: float64_of_int_def float64_round_of_int_exact_pos)
  next
    case 3
    with b have "float64_round (of_int (- n)) = of_int (- n)"
      by (intro float64_round_of_int_exact_pos) simp_all
    then show ?thesis
      using float64_round_minus [of "of_int n"] by (simp add: float64_of_int_def)
  qed
qed

lemma default_catalog: "metrics default_exporter = catalog ''lnd''"
  by (simp add: default_exporter_def NewLightningExporter_def)

lemma default_valid: "descriptors_valid default_exporter"
  by (simp add: descriptors_valid_def default_catalog catalog_def newGlobalMetric_def NewDesc_def
      IsValidMetricName_def isValidLegacyRune_def is_letter_def is_digit_def checkLabelName_def
      IsValidLabelName_def channel_labels_def enumerate_eq_zip upt_rec)

lemma utf8_examples: "utf8_answers offline" "utf8_answers status_only" "utf8_answers healthy"
  by (simp_all add: utf8_answers_def utf8_info_def utf8_event_def utf8_channel_def utf8_peer_def
      offline_def status_only_def healthy_def channel_a_def channel_b_def ValidString_ascii)

lemma sent_probing:
  assumes "metrics c = catalog ns" and "descriptors_valid c" and "utf8_answers w"
    and "getGrpcClient w (rpcAddr c) (tlsCertPath c) (macaroonPath c) = (evs, Inr con)"
    and "GetInfo w = Inr stats"
  shows "sent (fst (Collect c w)) =
       info_metrics ns stats @
       answered (wallet_metrics ns) (WalletBalance w) @
       answered (pending_metrics ns) (PendingChannels w) @
       answered (channels_balance_metrics ns) (ChannelBalance w) @
       (if exportPaymentMetrics c then answered (forwarding_metrics ns) (ForwardingHistory w) else []) @
       answered (network_metrics ns) (GetNetworkInfo w) @
       answered (channels_metrics ns) (ListChannels w) @
       (if exportPeerMetrics c then answered (peers_metrics ns) (ListPeers w) else []) @
       [liveness ns 1]"
proof -
  note cat = assms(1,2)
  have "sent evs = []"
    using getGrpcClient_events [of w "rpcAddr c" "tlsCertPath c" "macaroonPath c"] assms(4)
    by (simp add: sent_dial)
  then show ?thesis
    by (simp add: Collect_probing [OF assms] sent_append
        sent_info_samples [OF cat utf8_answers_info [OF assms(3,5)]]
        sent_wallet_probe [OF cat] sent_pending_probe [OF cat]
        sent_channels_balance_probe [OF cat] sent_forwarding_probe [OF cat assms(3)]
        sent_network_probe [OF cat] sent_channels_probe [OF cat assms(3)]
        sent_peers_probe [OF cat assms(3)])
qed

lemma not_liveness:
  "list_all (from_probe ns r) ms \<Longrightarrow>
   list_all (\<lambda>m. desc m \<noteq> newGlobalMetric ns ''lnd_up'' ''up'' []) ms"
proof (induction ms)
  case Nil
  then show ?case by simp
next
  case (Cons m ms)
  have "desc m \<noteq> newGlobalMetric ns ''lnd_up'' ''up'' []"
  proof
    assume "desc m = newGlobalMetric ns ''lnd_up'' ''up'' []"
    then have "fqName (desc m) = ns @ ''_'' @ ''lnd_up''"
      by (simp add: fqName_newGlobalMetric)
    moreover have "from_probe ns r m"
      using Cons.prems by simp
    ultimately show False
      by (cases r) (simp_all add: from_probe_def)
  qed
  with Cons show ?case by simp
qed

subsection \<open>The stored timeout is never read\<close>

lemma metric_timeout: "metric (c\<lparr>timeout := t\<rparr>) k = metric c k"
  by (simp add: metric_def)

lemma forwarding_sample_timeout: "forwarding_sample (c\<lparr>timeout := t\<rparr>) = forwarding_sample c"
  by (rule ext) (simp add: forwarding_sample_def metric_timeout)

lemma channel_samples_timeout: "channel_samples (c\<lparr>timeout := t\<rparr>) = channel_samples c"
  by (rule ext) (simp add: channel_samples_def metric_timeout)

lemma peer_samples_timeout: "peer_samples (c\<lparr>timeout := t\<rparr>) = peer_samples c"
  by (rule ext) (simp add: peer_samples_def metric_timeout)

lemma probes_timeout:
  "info_samples (c\<lparr>timeout := t\<rparr>) stats = info_samples c stats"
  "wallet_probe (c\<lparr>timeout := t\<rparr>) w = wallet_probe c w"
  "pending_probe (c\<lparr>timeout := t\<rparr>) w = pending_probe c w"
  "channels_balance_probe (c\<lparr>timeout := t\<rparr>) w = channels_balance_probe c w"
  "forwarding_probe (c\<lparr>timeout := t\<rparr>) w = forwarding_probe c w"
  "network_probe (c\<lparr>timeout := t\<rparr>) w = network_probe c w"
  "channels_probe (c\<lparr>timeout := t\<rparr>) w = channels_probe c w"
  "peers_probe (c\<lparr>timeout := t\<rparr>) w = peers_probe c w"
  "lnd_up (c\<lparr>timeout := t\<rparr>) v = lnd_up c v"
  by (simp_all add: info_samples_def wallet_probe_def pending_probe_def
      channels_balance_probe_def forwarding_probe_def network_probe_def channels_probe_def
      peers_probe_def lnd_up_def metric_timeout forwarding_sample_timeout
      channel_samples_timeout peer_samples_timeout cong: sum.case_cong)

lemma Collect_body_timeout: "Collect_body (c\<lparr>timeout := t\<rparr>) w = Collect_body c w"
  by (simp add: Collect_body_def probes_timeout del: block.simps
      cong: sum.case_cong prod.case_cong)

lemma deadlines_append: "deadlines (xs @ ys) = deadlines xs @ deadlines ys"
  by (induction xs rule: deadlines.induct) simp_all

lemma deadlines_dial: "list_all dial_event es \<Longrightarrow> deadlines es = []"
  by (induction es rule: deadlines.induct) simp_all

lemma deadlines_probe: "list_all probe_event es \<Longrightarrow> deadlines es = []"
  by (induction es rule: deadlines.induct) simp_all

subsection \<open>The calls of the probes\<close>

lemma calls_send: "calls (fst (send r)) = []"
  by (simp add: send_def emit_def split: sum.splits)

lemma calls_seq_Nil: "calls (fst s) = [] \<Longrightarrow> calls (fst t) = [] \<Longrightarrow> calls (fst (seq s t)) = []"
  by (simp add: seq_def calls_append split: ending.splits)

lemma calls_block_map_Nil: "(\<And>x. calls (fst (f x)) = []) \<Longrightarrow> calls (fst (block (map f xs))) = []"
  by (induction xs) (simp_all add: skip_def calls_seq_Nil)

lemmas calls_simps = calls_send calls_seq_Nil logf_def emit_def skip_def seq_pair

lemma calls_info_samples: "calls (fst (info_samples c stats)) = []"
  by (simp add: info_samples_def calls_simps)

lemma calls_wallet_probe: "calls (fst (wallet_probe c w)) = [WalletBalanceRequest]"
  by (simp add: wallet_probe_def calls_simps split: sum.splits)

lemma calls_pending_probe: "calls (fst (pending_probe c w)) = [PendingChannelsRequest]"
  by (simp add: pending_probe_def calls_simps split: sum.splits)

lemma calls_channels_balance_probe: "calls (fst (channels_balance_probe c w)) = [ChannelBalanceRequest]"
  by (simp add: channels_balance_probe_def calls_simps split: sum.splits)

lemma calls_forwarding_probe:
  "calls (fst (forwarding_probe c w)) = (if exportPaymentMetrics c then [ForwardingHistoryRequest] else [])"
  by (auto simp: forwarding_probe_def forwarding_sample_def calls_simps split: sum.splits
      intro!: calls_block_map_Nil)

lemma calls_network_probe: "calls (fst (network_probe c w)) = [NetworkInfoRequest]"
  by (simp add: network_probe_def calls_simps split: sum.splits)

lemma calls_channels_probe: "calls (fst (channels_probe c w)) = [ListChannelsRequest]"
  by (auto simp: channels_probe_def channel_samples_def calls_simps split: sum.splits
      intro!: calls_block_map_Nil)

lemma calls_peers_probe:
  "calls (fst (peers_probe c w)) = (if exportPeerMetrics c then [ListPeersRequest] else [])"
  by (auto simp: peers_probe_def peer_samples_def calls_simps split: sum.splits
      intro!: calls_block_map_Nil)

lemmas calls_probes = calls_info_samples calls_wallet_probe calls_pending_probe
  calls_channels_balance_probe calls_forwarding_probe calls_network_probe calls_channels_probe
  calls_peers_probe

lemma calls_probing:
  assumes "metrics c = catalog ns" and "descriptors_valid c" and "utf8_answers w"
    and "getGrpcClient w (rpcAddr c) (tlsCertPath c) (macaroonPath c) = (evs, Inr con)"
    and "GetInfo w = Inr stats"
  shows "calls (fst (Collect c w)) =
     [GetInfoRequest, WalletBalanceRequest, PendingChannelsRequest, ChannelBalanceRequest] @
     (if exportPaymentMetrics c then [ForwardingHistoryRequest] else []) @
     [NetworkInfoRequest, ListChannelsRequest] @
     (if exportPeerMetrics c then [ListPeersRequest] else [])"
proof -
  have "calls evs = []"
    using getGrpcClient_events [of w "rpcAddr c" "tlsCertPath c" "macaroonPath c"] assms(4)
    by (simp add: calls_dial)
  then show ?thesis
    by (simp add: Collect_probing [OF assms] calls_append calls_probes)
qed

lemma calls_not_probing:
  assumes "metrics c = catalog ns" and "descriptors_valid c"
    and "isl (snd (getGrpcClient w (rpcAddr c) (tlsCertPath c) (macaroonPath c))) \<or> isl (GetInfo w)"
  shows "ForwardingHistoryRequest \<notin> set (calls (fst (Collect c w)))"
    and "sent (fst (Collect c w)) = [liveness ns 0]"
proof -
  note cat = assms(1,2)
  obtain evs r where g: "getGrpcClient w (rpcAddr c) (tlsCertPath c) (macaroonPath c) = (evs, r)"
    by (cases "getGrpcClient w (rpcAddr c) (tlsCertPath c) (macaroonPath c)")
  have q: "calls evs = []" "sent evs = []"
    using getGrpcClient_events [of w "rpcAddr c" "tlsCertPath c" "macaroonPath c"] g
    by (simp_all add: calls_dial sent_dial)
  have "ForwardingHistoryRequest \<notin> set (calls (fst (Collect c w))) \<and>
      sent (fst (Collect c w)) = [liveness ns 0]"
  proof (cases r)
    case (Inl err)
    then show ?thesis
      using Collect_connect_failed [OF cat] g q by (simp add: calls_append sent_append)
  next
    case (Inr con)
    then obtain err where "GetInfo w = Inl err"
      using assms(3) g by (cases "GetInfo w") simp_all
    then show ?thesis
      using Collect_GetInfo_failed [OF cat] g Inr q by (simp add: calls_append sent_append)
  qed
  then show "ForwardingHistoryRequest \<notin> set (calls (fst (Collect c w)))"
    and "sent (fst (Collect c w)) = [liveness ns 0]"
    by simp_all
qed

subsection \<open>Selecting the samples of one probe\<close>

lemma filter_origin_same:
  "list_all (from_probe ns r) ms \<Longrightarrow> filter (from_probe ns r) ms = ms"
  by (induction ms) simp_all

lemma filter_origin_other:
  "list_all (from_probe ns r') ms \<Longrightarrow> r \<noteq> r' \<Longrightarrow> filter (from_probe ns r) ms = []"
  by (induction ms) (auto dest: from_probe_unique)

lemma length_forwarding_metrics:
  "length (answered (forwarding_metrics ns) a) =
     (case a of Inl err \<Rightarrow> 0 | Inr r \<Rightarrow> length (ForwardingEvents r))"
  by (simp add: answered_def forwarding_metrics_def split: sum.splits)

subsection \<open>The samples of a channel\<close>

lemma realCapacity_exact:
  assumes "\<bar>sint (Capacity ch)\<bar> \<le> 2 ^ 53" and "\<bar>sint (CommitFee ch)\<bar> \<le> 2 ^ 53"
  shows "realCapacity ch = float64_of_int (sint (Capacity ch) - sint (CommitFee ch))"
  by (simp add: realCapacity_def float64_sub_def float64_of_int_exact [OF assms(1)]
      float64_of_int_exact [OF assms(2)])
     (simp add: float64_of_int_def)

lemma realCapacity_pos_iff:
  assumes "\<bar>sint (Capacity ch)\<bar> \<le> 2 ^ 53" and "\<bar>sint (CommitFee ch)\<bar> \<le> 2 ^ 53"
  shows "0 < realCapacity ch \<longleftrightarrow> 0 < sint (Capacity ch) - sint (CommitFee ch)"
  unfolding realCapacity_exact [OF assms] float64_of_int_def
  by (rule float64_round_pos_iff)

lemma realCapacity_channel_a: "realCapacity channel_a = 90"
  by code_simp

lemma realCapacity_channel_b: "realCapacity channel_b = 0"
  by code_simp

lemma ratio_channel_a:
  "float64_div (float64_of_int (sint (LocalBalance channel_a))) 90 = 1 / 2"
  by code_simp

text \<open>The channel whose capacity and commit fee \<^verbatim>\<open>float64\<close> cannot tell apart.\<close>

lemma big_capacity: "sint (Capacity channel_big) = 9007199254740993"
  by (simp add: channel_big_def)

lemma big_fee: "sint (CommitFee channel_big) = 9007199254740992"
  by (simp add: channel_big_def)

lemma float64_of_big: "float64_of_int 9007199254740993 = 9007199254740992"
  by code_simp

lemma float64_of_big': "float64_of_int 9007199254740992 = 9007199254740992"
  by code_simp

lemma realCapacity_big: "realCapacity channel_big = 0"
  by (simp add: realCapacity_def big_capacity big_fee float64_of_big float64_of_big'
      float64_sub_def float64_round_def)

subsection \<open>The catalog\<close>

lemma catalog_names:
  "map (fqName \<circ> snd) (catalog ns) = map (\<lambda>n. ns @ ''_'' @ n)
     [''lnd_up'', ''forwarding_history_info'', ''network_capacity_sats_total'',
      ''network_channels_total'', ''network_nodes_total'', ''instance_info'',
      ''wallet_balance_sats'', ''peers'', ''channels'', ''block_height'', ''synced_to_chain'',
      ''channel_limbo_balance_sats'', ''channel_pending'', ''channel_waiting_close'',
      ''channels_balance_sats'', ''channel_balance_sats'', ''channel_balance_percentage'',
      ''peer_info'', ''peer_info_received_bytes_total'', ''peer_info_sent_bytes_total'']"
  by (simp add: catalog_def fqName_newGlobalMetric)

lemma distinct_catalog: "distinct (map snd (catalog ns))"
proof -
  have "distinct (map (\<lambda>n. ns @ ''_'' @ n)
     [''lnd_up'', ''forwarding_history_info'', ''network_capacity_sats_total'',
      ''network_channels_total'', ''network_nodes_total'', ''instance_info'',
      ''wallet_balance_sats'', ''peers'', ''channels'', ''block_height'', ''synced_to_chain'',
      ''channel_limbo_balance_sats'', ''channel_pending'', ''channel_waiting_close'',
      ''channels_balance_sats'', ''channel_balance_sats'', ''channel_balance_percentage'',
      ''peer_info'', ''peer_info_received_bytes_total'', ''peer_info_sent_bytes_total''])"
    by (simp add: distinct_map inj_on_def)
  then have "distinct (map fqName (map snd (catalog ns)))"
    by (simp only: catalog_names [symmetric] map_map)
  then show ?thesis
    using distinct_map [of fqName "map snd (catalog ns)"] by blast
qed

lemma length_catalog: "length (catalog ns) = 20"
  by (simp add: catalog_def)

subsection \<open>Serial runs\<close>

lemma other_other: "other (other i) = i"
  by (cases i) simp_all

lemma other_neq: "other i \<noteq> i"
  by (cases i) simp_all

lemma scrape_cases: "k = i \<or> k = other i"
  by (cases k; cases i) simp_all

lemma section_Lock:
  assumes "section_shape p" and "p = d @ Lock # es"
  shows "d = []"
proof (rule ccontr)
  assume "d \<noteq> []"
  from assms(1) obtain q where q: "p = Lock # q @ [Unlock]" "Lock \<notin> set q"
    by (auto simp: section_shape_def)
  from \<open>d \<noteq> []\<close> obtain d' where "d = Lock # d'"
    using q(1) assms(2) by (cases d) auto
  then have "q @ [Unlock] = d' @ Lock # es"
    using q(1) assms(2) by simp
  then have "Lock \<in> set (q @ [Unlock])"
    by simp
  then show False
    using q(2) by simp
qed

lemma section_Unlock:
  assumes "section_shape p" and "p = d @ Unlock # es"
  shows "es = [] \<and> d \<noteq> []"
proof -
  from assms(1) obtain q where q: "p = Lock # q @ [Unlock]" "Unlock \<notin> set q"
    by (auto simp: section_shape_def)
  have d: "d \<noteq> []"
    using q(1) assms(2) by (cases d) auto
  have "es = []"
  proof (rule ccontr)
    assume "es \<noteq> []"
    then obtain es' where es: "es = es' @ [Unlock]"
      using q(1) assms(2) by (metis append_butlast_last_id last.simps last_appendR list.distinct(1) snoc_eq_iff_butlast)
    then have "Lock # q = d @ Unlock # es'"
      using q(1) assms(2) by (metis append.assoc append_Cons butlast_snoc)
    then have "Unlock \<in> set (Lock # q)"
      by simp
    then show False
      using q(2) by simp
  qed
  with d show ?thesis by simp
qed

lemma section_other:
  assumes "section_shape p" and "p = d @ e # es" and "e \<noteq> Lock" and "e \<noteq> Unlock"
  shows "d \<noteq> [] \<and> es \<noteq> []"
proof -
  from assms(1) obtain q where q: "p = Lock # q @ [Unlock]"
    by (auto simp: section_shape_def)
  have "d \<noteq> []"
    using q assms(2,3) by (cases d) auto
  moreover have "es \<noteq> []"
  proof
    assume "es = []"
    then have "last p = e"
      using assms(2) by simp
    then show False
      using q assms(4) by simp
  qed
  ultimately show ?thesis by simp
qed

lemma serialI:
  assumes "p i = di @ rest i" and "p (other i) = dj @ rest (other i)"
    and "tr = tag i di @ tag (other i) dj" and "dj \<noteq> [] \<longrightarrow> rest i = []"
    and "locked = (inside di (rest i) \<or> inside dj (rest (other i)))"
  shows "serial p (locked, rest, tr)"
  unfolding serial_def using assms by blast

lemma advance_serial:
  assumes sh: "\<And>i. section_shape (p i)"
    and inv: "serial p s"
    and adv: "advance k s = Some s'"
  shows "serial p s'"
proof -
  obtain locked rest tr where s: "s = (locked, rest, tr)"
    by (cases s)
  from inv obtain i di dj where
    pi: "p i = di @ rest i" and pj: "p (other i) = dj @ rest (other i)" and
    tr: "tr = tag i di @ tag (other i) dj" and first: "dj \<noteq> [] \<longrightarrow> rest i = []" and
    l: "locked = (inside di (rest i) \<or> inside dj (rest (other i)))"
    unfolding serial_def s by auto
  from adv obtain e es where r: "rest k = e # es"
    unfolding s by (cases "rest k") auto
  consider (i) "k = i" | (j) "k = other i"
    using scrape_cases by blast
  then show ?thesis
  proof cases
    case i
    then have ri: "rest i = e # es" using r by simp
    then have dj: "dj = []" using first by auto
    have pk: "p i = di @ e # es" using pi ri by simp
    consider (lock) "e = Lock" | (unlock) "e = Unlock" | (plain) "e \<noteq> Lock" "e \<noteq> Unlock"
      by blast
    then show ?thesis
    proof cases
      case lock
      have di: "di = []"
        using section_Lock [OF sh] pk lock by blast
      have es: "es \<noteq> []"
        using sh [of i] pk di lock by (auto simp: section_shape_def)
      have "\<not> locked"
        using l di dj by (simp add: inside_def)
      then have s': "s' = (True, rest(i := es), tr @ [(i, Lock)])"
        using adv i ri lock unfolding s by simp
      show ?thesis
        unfolding s'
      proof (rule serialI [of _ i "[Lock]" _ "[]"])
        show "p i = [Lock] @ (rest(i := es)) i"
          using pk di lock by simp
        show "p (other i) = [] @ (rest(i := es)) (other i)"
          using pj dj by (simp add: other_neq)
        show "tr @ [(i, Lock)] = tag i [Lock] @ tag (other i) []"
          using tr di dj by (simp add: tag_def)
        show "[] \<noteq> [] \<longrightarrow> (rest(i := es)) i = []"
          by simp
        show "True = (inside [Lock] ((rest(i := es)) i) \<or> inside [] ((rest(i := es)) (other i)))"
          using es by (simp add: inside_def)
      qed
    next
      case unlock
      have u: "es = []" "di \<noteq> []"
        using section_Unlock [OF sh] pk unlock by blast+
      have "locked"
        using l u ri by (simp add: inside_def)
      then have s': "s' = (False, rest(i := []), tr @ [(i, Unlock)])"
        using adv i ri unlock u unfolding s by simp
      show ?thesis
        unfolding s'
      proof (rule serialI [of _ i "di @ [Unlock]" _ "[]"])
        show "p i = (di @ [Unlock]) @ (rest(i := [])) i"
          using pk u unlock by simp
        show "p (other i) = [] @ (rest(i := [])) (other i)"
          using pj dj by (simp add: other_neq)
        show "tr @ [(i, Unlock)] = tag i (di @ [Unlock]) @ tag (other i) []"
          using tr dj by (simp add: tag_def)
        show "[] \<noteq> [] \<longrightarrow> (rest(i := [])) i = []"
          by simp
        show "False = (inside (di @ [Unlock]) ((rest(i := [])) i) \<or>
            inside [] ((rest(i := [])) (other i)))"
          by (simp add: inside_def)
      qed
    next
      case plain
      have o: "di \<noteq> []" "es \<noteq> []"
        using section_other [OF sh pk plain] by simp_all
      have s': "s' = (locked, rest(i := es), tr @ [(i, e)])"
        using adv i ri plain unfolding s by simp
      have lk: "locked"
        using l o ri by (simp add: inside_def)
      show ?thesis
        unfolding s'
      proof (rule serialI [of _ i "di @ [e]" _ "[]"])
        show "p i = (di @ [e]) @ (rest(i := es)) i"
          using pk by simp
        show "p (other i) = [] @ (rest(i := es)) (other i)"
          using pj dj by (simp add: other_neq)
        show "tr @ [(i, e)] = tag i (di @ [e]) @ tag (other i) []"
          using tr dj by (simp add: tag_def)
        show "[] \<noteq> [] \<longrightarrow> (rest(i := es)) i = []"
          by simp
        show "locked = (inside (di @ [e]) ((rest(i := es)) i) \<or>
            inside [] ((rest(i := es)) (other i)))"
          using lk o by (simp add: inside_def)
      qed
    qed
  next
    case j
    then have rj: "rest (other i) = e # es" using r by simp
    have pk: "p (other i) = dj @ e # es" using pj rj by simp
    have ni: "i \<noteq> other i"
      using other_neq [of i] by simp
    consider (lock) "e = Lock" | (unlock) "e = Unlock" | (plain) "e \<noteq> Lock" "e \<noteq> Unlock"
      by blast
    then show ?thesis
    proof cases
      case lock
      have dj: "dj = []"
        using section_Lock [OF sh] pk lock by blast
      have es: "es \<noteq> []"
        using sh [of "other i"] pk dj lock by (auto simp: section_shape_def)
      have nl: "\<not> locked"
        using adv j rj lock unfolding s by (auto split: if_splits)
      then have s': "s' = (True, rest(other i := es), tr @ [(other i, Lock)])"
        using adv j rj lock unfolding s by simp
      from nl have "di = [] \<or> rest i = []"
        using l by (simp add: inside_def)
      then show ?thesis
      proof
        assume di: "di = []"
        show ?thesis
          unfolding s'
        proof (rule serialI [of _ "other i" "[Lock]" _ "[]"])
          show "p (other i) = [Lock] @ (rest(other i := es)) (other i)"
            using pk dj lock by simp
          show "p (other (other i)) = [] @ (rest(other i := es)) (other (other i))"
            using pi di ni by (simp add: other_other)
          show "tr @ [(other i, Lock)] = tag (other i) [Lock] @ tag (other (other i)) []"
            using tr di dj by (simp add: tag_def)
          show "[] \<noteq> [] \<longrightarrow> (rest(other i := es)) (other i) = []"
            by simp
          show "True = (inside [Lock] ((rest(other i := es)) (other i)) \<or>
              inside [] ((rest(other i := es)) (other (other i))))"
            using es by (simp add: inside_def)
        qed
      next
        assume ri: "rest i = []"
        show ?thesis
          unfolding s'
        proof (rule serialI [of _ i di _ "[Lock]"])
          show "p i = di @ (rest(other i := es)) i"
            using pi ni by simp
          show "p (other i) = [Lock] @ (rest(other i := es)) (other i)"
            using pk dj lock by simp
          show "tr @ [(other i, Lock)] = tag i di @ tag (other i) [Lock]"
            using tr dj by (simp add: tag_def)
          show "[Lock] \<noteq> [] \<longrightarrow> (rest(other i := es)) i = []"
            using ri ni by simp
          show "True = (inside di ((rest(other i := es)) i) \<or>
              inside [Lock] ((rest(other i := es)) (other i)))"
            using es by (simp add: inside_def)
        qed
      qed
    next
      case unlock
      have u: "es = []" "dj \<noteq> []"
        using section_Unlock [OF sh] pk unlock by blast+
      then have ri: "rest i = []"
        using first by simp
      have "locked"
        using l u rj by (simp add: inside_def)
      then have s': "s' = (False, rest(other i := []), tr @ [(other i, Unlock)])"
        using adv j rj unlock u unfolding s by simp
      show ?thesis
        unfolding s'
      proof (rule serialI [of _ i di _ "dj @ [Unlock]"])
        show "p i = di @ (rest(other i := [])) i"
          using pi ni by simp
        show "p (other i) = (dj @ [Unlock]) @ (rest(other i := [])) (other i)"
          using pk u unlock by simp
        show "tr @ [(other i, Unlock)] = tag i di @ tag (other i) (dj @ [Unlock])"
          using tr by (simp add: tag_def)
        show "dj @ [Unlock] \<noteq> [] \<longrightarrow> (rest(other i := [])) i = []"
          using ri ni by simp
        show "False = (inside di ((rest(other i := [])) i) \<or>
            inside (dj @ [Unlock]) ((rest(other i := [])) (other i)))"
          using ri ni by (simp add: inside_def)
      qed
    next
      case plain
      have o: "dj \<noteq> []" "es \<noteq> []"
        using section_other [OF sh pk plain] by simp_all
      then have ri: "rest i = []"
        using first by simp
      have s': "s' = (locked, rest(other i := es), tr @ [(other i, e)])"
        using adv j rj plain unfolding s by simp
      have lk: "locked"
        using l o rj by (simp add: inside_def)
      show ?thesis
        unfolding s'
      proof (rule serialI [of _ i di _ "dj @ [e]"])
        show "p i = di @ (rest(other i := es)) i"
          using pi ni by simp
        show "p (other i) = (dj @ [e]) @ (rest(other i := es)) (other i)"
          using pk by simp
        show "tr @ [(other i, e)] = tag i di @ tag (other i) (dj @ [e])"
          using tr by (simp add: tag_def)
        show "dj @ [e] \<noteq> [] \<longrightarrow> (rest(other i := es)) i = []"
          using ri ni by simp
        show "locked = (inside di ((rest(other i := es)) i) \<or>
            inside (dj @ [e]) ((rest(other i := es)) (other i)))"
          using lk o by (simp add: inside_def)
      qed
    qed
  qed
qed

lemma run_serial:
  assumes sh: "\<And>i. section_shape (p i)"
  shows "serial p s \<Longrightarrow> run sched s = Some s' \<Longrightarrow> serial p s'"
proof (induction sched arbitrary: s)
  case Nil
  then show ?case by simp
next
  case (Cons k sched)
  from Cons.prems(2) obtain s1 where a: "advance k s = Some s1" and r: "run sched s1 = Some s'"
    by (auto split: option.splits)
  from advance_serial [OF sh Cons.prems(1) a] have "serial p s1" .
  from Cons.IH [OF this r] show ?case .
qed

lemma serial_start: "serial p (False, p, [])"
  by (rule serialI [of _ Scrape1 "[]" _ "[]"]) (simp_all add: tag_def inside_def)

lemma serial_prefix:
  assumes "serial p (locked, rest, tr)"
  shows "prefix tr (tag Scrape1 (p Scrape1) @ tag Scrape2 (p Scrape2)) \<or>
    prefix tr (tag Scrape2 (p Scrape2) @ tag Scrape1 (p Scrape1))"
proof -
  from assms obtain i di dj where
    pi: "p i = di @ rest i" and pj: "p (other i) = dj @ rest (other i)" and
    tr: "tr = tag i di @ tag (other i) dj" and first: "dj \<noteq> [] \<longrightarrow> rest i = []"
    unfolding serial_def by auto
  have "prefix tr (tag i (p i) @ tag (other i) (p (other i)))"
  proof (cases "dj = []")
    case True
    then have "tag i (p i) @ tag (other i) (p (other i)) =
        tr @ (tag i (rest i) @ tag (other i) (p (other i)))"
      using tr pi by (simp add: tag_def)
    then show ?thesis
      by (metis prefixI)
  next
    case False
    then have "rest i = []" using first by simp
    then have "tag i (p i) @ tag (other i) (p (other i)) = tr @ tag (other i) (rest (other i))"
      using tr pi pj by (simp add: tag_def)
    then show ?thesis
      by (metis prefixI)
  qed
  then show ?thesis
    by (cases i) simp_all
qed

lemma serial_progress:
  assumes sh: "\<And>i. section_shape (p i)"
    and inv: "serial p (locked, rest, tr)"
    and todo: "rest k \<noteq> []"
  shows "\<exists>m s'. advance m (locked, rest, tr) = Some s'"
proof -
  from inv obtain i di dj where
    pi: "p i = di @ rest i" and pj: "p (other i) = dj @ rest (other i)" and
    first: "dj \<noteq> [] \<longrightarrow> rest i = []" and
    l: "locked = (inside di (rest i) \<or> inside dj (rest (other i)))"
    unfolding serial_def by auto
  have movable: "\<exists>s'. advance m (locked, rest, tr) = Some s'"
    if d: "p m = d @ rest m" and r: "rest m \<noteq> []" and c: "locked \<longleftrightarrow> d \<noteq> []" for m d
  proof -
    obtain e es where es: "rest m = e # es"
      using r by (cases "rest m") auto
    then have pm: "p m = d @ e # es" using d by simp
    consider (lock) "e = Lock" | (unlock) "e = Unlock" | (plain) "e \<noteq> Lock" "e \<noteq> Unlock"
      by blast
    then show ?thesis
    proof cases
      case lock
      then have "d = []" using section_Lock [OF sh] pm by blast
      then show ?thesis using es lock c by auto
    next
      case unlock
      then have "d \<noteq> []" using section_Unlock [OF sh] pm by blast
      then show ?thesis using es unlock c by auto
    next
      case plain
      then show ?thesis using es by auto
    qed
  qed
  show ?thesis
  proof (cases locked)
    case True
    then consider "inside di (rest i)" | "inside dj (rest (other i))"
      using l by blast
    then show ?thesis
    proof cases
      case 1
      then show ?thesis
        using movable [OF pi] True by (auto simp: inside_def)
    next
      case 2
      then show ?thesis
        using movable [OF pj] True by (auto simp: inside_def)
    qed
  next
    case False
    then have ni: "di = [] \<or> rest i = []" and nj: "dj = [] \<or> rest (other i) = []"
      using l by (auto simp: inside_def)
    consider "k = i" | "k = other i"
      using scrape_cases by blast
    then show ?thesis
    proof cases
      case 1
      then have "di = []" using ni todo by simp
      then show ?thesis
        using movable [OF pi] False todo 1 by auto
    next
      case 2
      then have "dj = []" using nj todo by simp
      then show ?thesis
        using movable [OF pj] False todo 2 by auto
    qed
  qed
qed

lemma serial_complete:
  assumes "serial p (locked, rest, tr)" and "rest Scrape1 = []" and "rest Scrape2 = []"
  shows "tr = tag Scrape1 (p Scrape1) @ tag Scrape2 (p Scrape2) \<or>
    tr = tag Scrape2 (p Scrape2) @ tag Scrape1 (p Scrape1)"
proof -
  from assms(1) obtain i di dj where
    pi: "p i = di @ rest i" and pj: "p (other i) = dj @ rest (other i)" and
    tr: "tr = tag i di @ tag (other i) dj"
    unfolding serial_def by auto
  have "rest i = []" and "rest (other i) = []"
    using assms(2,3) by (cases i; simp)+
  then have "tr = tag i (p i) @ tag (other i) (p (other i))"
    using pi pj tr by simp
  then show ?thesis
    by (cases i) simp_all
qed

lemma Collect_section: "section_shape (fst (Collect c w))"
proof -
  let ?g = "getGrpcClient w (rpcAddr c) (tlsCertPath c) (macaroonPath c)"
  obtain tail where t: "list_all probe_event tail"
    and tr: "fst (Collect c w) =
       Lock # Defer Unlock # fst ?g @
       (case snd ?g of
          Inl err \<Rightarrow> tail @ [Unlock]
        | Inr con \<Rightarrow> Defer (Close con) # WithTimeout (15 * Second) # Defer Cancel # tail @
            [Cancel, Close con, Unlock])"
    using Collect_shape by blast
  have d: "list_all dial_event (fst ?g)"
    by (rule getGrpcClient_events)
  have q1: "Lock \<notin> set tail \<and> Unlock \<notin> set tail"
    using t by (auto simp: list_all_iff)
  have q2: "Lock \<notin> set (fst ?g) \<and> Unlock \<notin> set (fst ?g)"
    using d by (auto simp: list_all_iff)
  show ?thesis
  proof (cases "snd ?g")
    case (Inl err)
    have "fst (Collect c w) = Lock # (Defer Unlock # fst ?g @ tail) @ [Unlock]"
      using tr Inl by simp
    moreover have "Lock \<notin> set (Defer Unlock # fst ?g @ tail)"
      and "Unlock \<notin> set (Defer Unlock # fst ?g @ tail)"
      using q1 q2 by simp_all
    ultimately show ?thesis
      unfolding section_shape_def by blast
  next
    case (Inr con)
    let ?q = "Defer Unlock # fst ?g @
      Defer (Close con) # WithTimeout (15 * Second) # Defer Cancel # tail @ [Cancel, Close con]"
    have "fst (Collect c w) = Lock # ?q @ [Unlock]"
      using tr Inr by simp
    moreover have "Lock \<notin> set ?q" and "Unlock \<notin> set ?q"
      using q1 q2 by simp_all
    ultimately show ?thesis
      unfolding section_shape_def by blast
  qed
qed

lemma scrapes_section: "section_shape (scrapes c w1 w2 i)"
  by (simp add: scrapes_def Collect_section)

lemma offline_trace:
  "fst (Collect default_exporter offline) =
     [Lock, Defer Unlock, Log ''Cannot get node tls credentials no such file'',
      Log ''getGrpcClient() err: no such file'', Send (liveness ''lnd'' 0), Unlock]"
proof -
  have "getGrpcClient offline (rpcAddr default_exporter) (tlsCertPath default_exporter)
      (macaroonPath default_exporter) =
    ([Log ''Cannot get node tls credentials no such file''], Inl ''no such file'')"
    by (simp add: getGrpcClient_def offline_def)
  from Collect_connect_failed [OF default_catalog default_valid this] show ?thesis
    by simp
qed

section \<open>The claims\<close>

subsection \<open>Liveness\<close>

text \<open>
  C1. Every scrape of a well-formed exporter (the constructor's catalog, no descriptor with an
  error) on a node whose strings are valid UTF-8 sends exactly one liveness sample, and it is
  the last sample of the scrape. Its value is 0, with no sample before it, when the connection
  cannot be established (\<^verbatim>\<open>getGrpcClient\<close> fails) or the status call \<^verbatim>\<open>GetInfo\<close> fails, which
  the specification counts as a failure of connection establishment; otherwise the session runs
  to its end and the value is 1, whatever probes were skipped.
\<close>

theorem liveness_once_and_last:
  assumes "metrics c = catalog ns" and "descriptors_valid c" and "utf8_answers w"
  shows "\<exists>xs v. sent (fst (Collect c w)) = xs @ [liveness ns v] \<and>
      list_all (\<lambda>m. desc m \<noteq> newGlobalMetric ns ''lnd_up'' ''up'' []) xs \<and>
      (if isl (snd (getGrpcClient w (rpcAddr c) (tlsCertPath c) (macaroonPath c))) \<or> isl (GetInfo w)
       then v = 0 \<and> xs = [] else v = 1)"
proof -
  note cat = assms(1,2)
  obtain evs r where g: "getGrpcClient w (rpcAddr c) (tlsCertPath c) (macaroonPath c) = (evs, r)"
    by (cases "getGrpcClient w (rpcAddr c) (tlsCertPath c) (macaroonPath c)")
  have quiet: "sent evs = []"
    using getGrpcClient_events [of w "rpcAddr c" "tlsCertPath c" "macaroonPath c"] g
    by (simp add: sent_dial)
  show ?thesis
  proof (cases r)
    case (Inl err)
    have "sent (fst (Collect c w)) = [] @ [liveness ns 0]"
      using Collect_connect_failed [OF cat] g Inl quiet by (simp add: sent_append)
    then show ?thesis
      using g Inl by (intro exI [of _ "[]"] exI [of _ 0]) simp
  next
    case (Inr con)
    show ?thesis
    proof (cases "GetInfo w")
      case (Inl err)
      have "sent (fst (Collect c w)) = [] @ [liveness ns 0]"
        using Collect_GetInfo_failed [OF cat] g Inr Inl quiet by (simp add: sent_append)
      then show ?thesis
        using Inl by (intro exI [of _ "[]"] exI [of _ 0]) simp
    next
      case stats: (Inr stats)
      let ?xs = "info_metrics ns stats @
         answered (wallet_metrics ns) (WalletBalance w) @
         answered (pending_metrics ns) (PendingChannels w) @
         answered (channels_balance_metrics ns) (ChannelBalance w) @
         (if exportPaymentMetrics c then answered (forwarding_metrics ns) (ForwardingHistory w) else []) @
         answered (network_metrics ns) (GetNetworkInfo w) @
         answered (channels_metrics ns) (ListChannels w) @
         (if exportPeerMetrics c then answered (peers_metrics ns) (ListPeers w) else [])"
      have "sent (fst (Collect c w)) = ?xs @ [liveness ns 1]"
        using sent_probing [OF assms] g Inr stats by simp
      moreover have "list_all (\<lambda>m. desc m \<noteq> newGlobalMetric ns ''lnd_up'' ''up'' []) ?xs"
        using not_liveness [OF info_metrics_origin, of ns stats]
          not_liveness [OF wallet_metrics_origin, of ns "WalletBalance w"]
          not_liveness [OF pending_metrics_origin, of ns "PendingChannels w"]
          not_liveness [OF channels_balance_metrics_origin, of ns "ChannelBalance w"]
          not_liveness [OF forwarding_metrics_origin, of ns "ForwardingHistory w"]
          not_liveness [OF network_metrics_origin, of ns "GetNetworkInfo w"]
          not_liveness [OF channels_metrics_origin, of ns "ListChannels w"]
          not_liveness [OF peers_metrics_origin, of ns "ListPeers w"]
        by simp
      ultimately show ?thesis
        using g Inr stats by (intro exI [of _ ?xs] exI [of _ 1]) simp
    qed
  qed
qed

theorem liveness_once_and_last_witness:
  "metrics default_exporter = catalog ''lnd'' \<and> descriptors_valid default_exporter \<and>
   utf8_answers status_only \<and>
   (\<exists>xs v. sent (fst (Collect default_exporter status_only)) = xs @ [liveness ''lnd'' v] \<and>
      list_all (\<lambda>m. desc m \<noteq> newGlobalMetric ''lnd'' ''lnd_up'' ''up'' []) xs \<and>
      (if isl (snd (getGrpcClient status_only (rpcAddr default_exporter)
                 (tlsCertPath default_exporter) (macaroonPath default_exporter))) \<or>
          isl (GetInfo status_only)
       then v = 0 \<and> xs = [] else v = 1))"
  using liveness_once_and_last [OF default_catalog default_valid utf8_examples(2)]
    default_catalog default_valid utf8_examples(2)
  by simp

subsection \<open>Connection failure\<close>

text \<open>
  C2. When connection establishment fails (\<^verbatim>\<open>getGrpcClient\<close> returns an error: the TLS
  credentials, the macaroon file, its decoding, the macaroon credential or the dial), the scrape
  of a well-formed exporter sends one sample, liveness with value 0, calls the node not once,
  and returns.
\<close>

theorem connection_failure_only_liveness:
  assumes "metrics c = catalog ns" and "descriptors_valid c"
    and "snd (getGrpcClient w (rpcAddr c) (tlsCertPath c) (macaroonPath c)) = Inl err"
  shows "sent (fst (Collect c w)) = [liveness ns 0] \<and> calls (fst (Collect c w)) = [] \<and>
    snd (Collect c w) = Return"
proof -
  obtain evs where g: "getGrpcClient w (rpcAddr c) (tlsCertPath c) (macaroonPath c) = (evs, Inl err)"
    using assms(3) by (cases "getGrpcClient w (rpcAddr c) (tlsCertPath c) (macaroonPath c)") simp
  have "sent evs = []" and "calls evs = []"
    using getGrpcClient_events [of w "rpcAddr c" "tlsCertPath c" "macaroonPath c"] g
    by (simp_all add: sent_dial calls_dial)
  then show ?thesis
    by (simp add: Collect_connect_failed [OF assms(1,2) g] sent_append calls_append)
qed

theorem connection_failure_only_liveness_witness:
  "metrics default_exporter = catalog ''lnd'' \<and> descriptors_valid default_exporter \<and>
   snd (getGrpcClient offline (rpcAddr default_exporter) (tlsCertPath default_exporter)
     (macaroonPath default_exporter)) = Inl ''no such file'' \<and>
   sent (fst (Collect default_exporter offline)) = [liveness ''lnd'' 0] \<and>
   calls (fst (Collect default_exporter offline)) = [] \<and>
   snd (Collect default_exporter offline) = Return"
proof -
  have g: "snd (getGrpcClient offline (rpcAddr default_exporter) (tlsCertPath default_exporter)
     (macaroonPath default_exporter)) = Inl ''no such file''"
    by (simp add: getGrpcClient_def offline_def)
  from connection_failure_only_liveness [OF default_catalog default_valid g] show ?thesis
    using default_catalog default_valid g by simp
qed

text \<open>Connection establishment fails exactly when one of its five steps does.\<close>

lemma getGrpcClient_fails_iff:
  "isl (snd (getGrpcClient w addr tlsPath macPath)) \<longleftrightarrow>
     isl (NewClientTLSFromFile w tlsPath) \<or> isl (ReadFile w macPath) \<or>
     isl (UnmarshalBinary w (projr (ReadFile w macPath))) \<or>
     NewMacaroonCredential w (projr (UnmarshalBinary w (projr (ReadFile w macPath)))) \<noteq> None \<or>
     isl (Dial w addr)"
  by (auto simp: getGrpcClient_def split: sum.splits option.splits)

subsection \<open>One failing probe\<close>

text \<open>
  C3. Take a scrape of a well-formed exporter that reaches its probes (connection established,
  status call answered), on a node whose strings are valid UTF-8. What it sends is, in this
  order, the samples of the node status, then for each probe the samples owed for the node's
  answer to its call, written out in \<open>wallet_metrics\<close> to \<open>peers_metrics\<close>, or nothing when that
  call failed (and nothing for the two optional probes when their flag is off), then liveness
  with value 1. So a probe whose call fails contributes no sample, every probe whose call
  succeeds contributes all of its samples, whatever the other calls did, and the scrape makes
  every call and returns.
\<close>

theorem scrape_output_per_probe:
  assumes "metrics c = catalog ns" and "descriptors_valid c" and "utf8_answers w"
    and "snd (getGrpcClient w (rpcAddr c) (tlsCertPath c) (macaroonPath c)) = Inr con"
    and "GetInfo w = Inr stats"
  shows "sent (fst (Collect c w)) =
       info_metrics ns stats @
       (case WalletBalance w of Inl e \<Rightarrow> [] | Inr r \<Rightarrow> wallet_metrics ns r) @
       (case PendingChannels w of Inl e \<Rightarrow> [] | Inr r \<Rightarrow> pending_metrics ns r) @
       (case ChannelBalance w of Inl e \<Rightarrow> [] | Inr r \<Rightarrow> channels_balance_metrics ns r) @
       (if exportPaymentMetrics c
        then (case ForwardingHistory w of Inl e \<Rightarrow> [] | Inr r \<Rightarrow> forwarding_metrics ns r)
        else []) @
       (case GetNetworkInfo w of Inl e \<Rightarrow> [] | Inr r \<Rightarrow> network_metrics ns r) @
       (case ListChannels w of Inl e \<Rightarrow> [] | Inr r \<Rightarrow> channels_metrics ns r) @
       (if exportPeerMetrics c
        then (case ListPeers w of Inl e \<Rightarrow> [] | Inr r \<Rightarrow> peers_metrics ns r)
        else []) @
       [liveness ns 1] \<and>
     calls (fst (Collect c w)) =
       [GetInfoRequest, WalletBalanceRequest, PendingChannelsRequest, ChannelBalanceRequest] @
       (if exportPaymentMetrics c then [ForwardingHistoryRequest] else []) @
       [NetworkInfoRequest, ListChannelsRequest] @
       (if exportPeerMetrics c then [ListPeersRequest] else []) \<and>
     snd (Collect c w) = Return"
proof -
  obtain evs where g: "getGrpcClient w (rpcAddr c) (tlsCertPath c) (macaroonPath c) = (evs, Inr con)"
    using assms(4) by (cases "getGrpcClient w (rpcAddr c) (tlsCertPath c) (macaroonPath c)") simp
  show ?thesis
    using sent_probing [OF assms(1,2,3) g assms(5)] calls_probing [OF assms(1,2,3) g assms(5)]
      Collect_returns [OF assms(1,2,3)]
    unfolding answered_def by simp
qed

theorem scrape_output_per_probe_witness:
  "metrics default_exporter = catalog ''lnd'' \<and> descriptors_valid default_exporter \<and>
   utf8_answers wallet_down \<and>
   snd (getGrpcClient wallet_down (rpcAddr default_exporter) (tlsCertPath default_exporter)
     (macaroonPath default_exporter)) = Inr (ClientConn ''localhost:10009'') \<and>
   GetInfo wallet_down = Inr (projr (GetInfo healthy)) \<and>
   WalletBalance wallet_down = Inl ''deadline exceeded'' \<and>
   sent (fst (Collect default_exporter wallet_down)) =
     info_metrics ''lnd'' (projr (GetInfo healthy)) @
     pending_metrics ''lnd'' (projr (PendingChannels healthy)) @
     channels_balance_metrics ''lnd'' (projr (ChannelBalance healthy)) @
     forwarding_metrics ''lnd'' (projr (ForwardingHistory healthy)) @
     network_metrics ''lnd'' (projr (GetNetworkInfo healthy)) @
     channels_metrics ''lnd'' (projr (ListChannels healthy)) @
     peers_metrics ''lnd'' (projr (ListPeers healthy)) @
     [liveness ''lnd'' 1] \<and>
   calls (fst (Collect default_exporter wallet_down)) =
     [GetInfoRequest, WalletBalanceRequest, PendingChannelsRequest, ChannelBalanceRequest,
      ForwardingHistoryRequest, NetworkInfoRequest, ListChannelsRequest, ListPeersRequest] \<and>
   snd (Collect default_exporter wallet_down) = Return"
proof -
  have u: "utf8_answers wallet_down"
    using utf8_examples(3) by (simp add: utf8_answers_def wallet_down_def)
  have g: "snd (getGrpcClient wallet_down (rpcAddr default_exporter) (tlsCertPath default_exporter)
     (macaroonPath default_exporter)) = Inr (ClientConn ''localhost:10009'')"
    by (simp add: getGrpcClient_def wallet_down_def healthy_def status_only_def offline_def
        default_exporter_def NewLightningExporter_def)
  have i: "GetInfo wallet_down = Inr (projr (GetInfo healthy))"
    by (simp add: wallet_down_def healthy_def status_only_def)
  have a: "WalletBalance wallet_down = Inl ''deadline exceeded''"
    "PendingChannels wallet_down = Inr (projr (PendingChannels healthy))"
    "ChannelBalance wallet_down = Inr (projr (ChannelBalance healthy))"
    "ForwardingHistory wallet_down = Inr (projr (ForwardingHistory healthy))"
    "GetNetworkInfo wallet_down = Inr (projr (GetNetworkInfo healthy))"
    "ListChannels wallet_down = Inr (projr (ListChannels healthy))"
    "ListPeers wallet_down = Inr (projr (ListPeers healthy))"
    by (simp_all add: wallet_down_def healthy_def)
  have f: "exportPaymentMetrics default_exporter" "exportPeerMetrics default_exporter"
    by (simp_all add: default_exporter_def NewLightningExporter_def)
  from scrape_output_per_probe [OF default_catalog default_valid u g i]
  show ?thesis
    using default_catalog default_valid u g i by (simp add: a f)
qed

text \<open>
  Two runs, evaluated. On the example node that answers every call: the node status of the
  specification's scenario (5 peers, 2 active, 1 pending and 0 inactive channels) and, for the
  two channels, the ratio 0.5 for capacity 100, commit fee 10 and local balance 45, and no ratio
  for capacity 10 and commit fee 10. On the same node without an answer to the wallet balance:
  the same samples but the two of the wallet.
\<close>

lemma example_run:
  "map (\<lambda>m. (fqName (desc m), val m, labelValues m))
     (sent (fst (Collect default_exporter healthy))) =
   [(''lnd_instance_info'', 1, [''alice'', ''02aa'', ''0.18'']),
    (''lnd_peers'', 5, []),
    (''lnd_channels'', 2, [''active'']),
    (''lnd_channels'', 1, [''pending'']),
    (''lnd_channels'', 0, [''inactive'']),
    (''lnd_block_height'', 800000, []),
    (''lnd_synced_to_chain'', 1, []),
    (''lnd_wallet_balance_sats'', 0, [''unconfirmed'']),
    (''lnd_wallet_balance_sats'', 1000, [''confirmed'']),
    (''lnd_channel_limbo_balance_sats'', 0, []),
    (''lnd_channel_pending'', 1, [''opening'', ''false'']),
    (''lnd_channel_pending'', 0, [''closing'', ''false'']),
    (''lnd_channel_pending'', 0, [''closing'', ''true'']),
    (''lnd_channel_waiting_close'', 0, []),
    (''lnd_channels_balance_sats'', 90, []),
    (''lnd_forwarding_history_info'', 1,
       [''bob'', ''carol'', ''21'', ''20'', ''1'', ''1'', ''2'', ''7'']),
    (''lnd_network_capacity_sats_total'', 5000, []),
    (''lnd_network_channels_total'', 40, []),
    (''lnd_network_nodes_total'', 12, []),
    (''lnd_channel_balance_percentage'', 1 / 2,
       [''true'', ''03bb'', ''ab:0'', ''1'', ''100'', ''10'', ''false'', ''true'']),
    (''lnd_channel_balance_sats'', 45,
       [''true'', ''03bb'', ''ab:0'', ''1'', ''100'', ''10'', ''false'', ''true'']),
    (''lnd_channel_balance_sats'', 45,
       [''false'', ''03cc'', ''cd:1'', ''2'', ''10'', ''10'', ''true'', ''false'']),
    (''lnd_peer_info'', 1, [''10.0.0.2:9735'', ''03bb'', ''inbound'']),
    (''lnd_peer_info_received_bytes_total'', 10, [''10.0.0.2:9735'']),
    (''lnd_peer_info_sent_bytes_total'', 20, [''10.0.0.2:9735'']),
    (''lnd_lnd_up'', 1, [])]"
  by code_simp

lemma example_run_wallet_down:
  "map (\<lambda>m. (fqName (desc m), val m, labelValues m))
     (sent (fst (Collect default_exporter wallet_down))) =
   [(''lnd_instance_info'', 1, [''alice'', ''02aa'', ''0.18'']),
    (''lnd_peers'', 5, []),
    (''lnd_channels'', 2, [''active'']),
    (''lnd_channels'', 1, [''pending'']),
    (''lnd_channels'', 0, [''inactive'']),
    (''lnd_block_height'', 800000, []),
    (''lnd_synced_to_chain'', 1, []),
    (''lnd_channel_limbo_balance_sats'', 0, []),
    (''lnd_channel_pending'', 1, [''opening'', ''false'']),
    (''lnd_channel_pending'', 0, [''closing'', ''false'']),
    (''lnd_channel_pending'', 0, [''closing'', ''true'']),
    (''lnd_channel_waiting_close'', 0, []),
    (''lnd_channels_balance_sats'', 90, []),
    (''lnd_forwarding_history_info'', 1,
       [''bob'', ''carol'', ''21'', ''20'', ''1'', ''1'', ''2'', ''7'']),
    (''lnd_network_capacity_sats_total'', 5000, []),
    (''lnd_network_channels_total'', 40, []),
    (''lnd_network_nodes_total'', 12, []),
    (''lnd_channel_balance_percentage'', 1 / 2,
       [''true'', ''03bb'', ''ab:0'', ''1'', ''100'', ''10'', ''false'', ''true'']),
    (''lnd_channel_balance_sats'', 45,
       [''true'', ''03bb'', ''ab:0'', ''1'', ''100'', ''10'', ''false'', ''true'']),
    (''lnd_channel_balance_sats'', 45,
       [''false'', ''03cc'', ''cd:1'', ''2'', ''10'', ''10'', ''true'', ''false'']),
    (''lnd_peer_info'', 1, [''10.0.0.2:9735'', ''03bb'', ''inbound'']),
    (''lnd_peer_info_received_bytes_total'', 10, [''10.0.0.2:9735'']),
    (''lnd_peer_info_sent_bytes_total'', 20, [''10.0.0.2:9735'']),
    (''lnd_lnd_up'', 1, [])]"
  by code_simp

subsection \<open>The balance ratio\<close>

text \<open>
  C4, as amended. For the channels that the channel-list probe returns, in their order, the
  scrape of a well-formed exporter (on a node whose strings are valid UTF-8) sends the ratio
  sample when \<open>realCapacity\<close>, the \<^verbatim>\<open>float64\<close> difference of
  the converted capacity and commit fee, is positive, with the \<^verbatim>\<open>float64\<close> quotient of the
  converted local balance by it as value, and then always the balance sample. For a channel
  whose capacity and commit fee are at most \<open>2\<^sup>5\<^sup>3\<close> in absolute value, which
  \<^verbatim>\<open>float64\<close> holds exactly, that guard is the claim's: the ratio sample is sent exactly
  when capacity minus commit fee is positive, and the divisor is that difference converted.
\<close>

theorem channel_ratio_guard:
  assumes "metrics c = catalog ns" and "descriptors_valid c" and "utf8_answers w"
    and "ListChannels w = Inr r"
  shows "sent (fst (channels_probe c w)) =
      concat (map (\<lambda>ch.
        (if 0 < realCapacity ch
         then [ratio_sample ns ch
                 (float64_div (float64_of_int (sint (LocalBalance ch))) (realCapacity ch))]
         else []) @ [balance_sample ns ch]) (Channels r)) \<and>
    (\<forall>ch. \<bar>sint (Capacity ch)\<bar> \<le> 2 ^ 53 \<and> \<bar>sint (CommitFee ch)\<bar> \<le> 2 ^ 53 \<longrightarrow>
       (0 < realCapacity ch \<longleftrightarrow> 0 < sint (Capacity ch) - sint (CommitFee ch)) \<and>
       realCapacity ch = float64_of_int (sint (Capacity ch) - sint (CommitFee ch)))"
proof -
  have "sent (fst (channels_probe c w)) =
      concat (map (\<lambda>ch.
        (if 0 < realCapacity ch
         then [ratio_sample ns ch
                 (float64_div (float64_of_int (sint (LocalBalance ch))) (realCapacity ch))]
         else []) @ [balance_sample ns ch]) (Channels r))"
    using sent_channels_probe [OF assms(1,2,3)] assms(4)
    by (simp add: answered_def channels_metrics_def)
  then show ?thesis
    using realCapacity_pos_iff realCapacity_exact by blast
qed

theorem channel_ratio_guard_witness:
  "metrics default_exporter = catalog ''lnd'' \<and> descriptors_valid default_exporter \<and>
   utf8_answers healthy \<and>
   ListChannels healthy = Inr \<lparr>Channels = [channel_a, channel_b]\<rparr> \<and>
   \<bar>sint (Capacity channel_a)\<bar> \<le> 2 ^ 53 \<and> \<bar>sint (CommitFee channel_a)\<bar> \<le> 2 ^ 53 \<and>
   sent (fst (channels_probe default_exporter healthy)) =
     [ratio_sample ''lnd'' channel_a (1 / 2), balance_sample ''lnd'' channel_a,
      balance_sample ''lnd'' channel_b] \<and>
   (0 < realCapacity channel_a) = (0 < sint (Capacity channel_a) - sint (CommitFee channel_a)) \<and>
   realCapacity channel_a = float64_of_int (sint (Capacity channel_a) - sint (CommitFee channel_a))"
proof -
  have l: "ListChannels healthy = Inr \<lparr>Channels = [channel_a, channel_b]\<rparr>"
    by (simp add: healthy_def)
  have b: "\<bar>sint (Capacity channel_a)\<bar> \<le> 2 ^ 53 \<and> \<bar>sint (CommitFee channel_a)\<bar> \<le> 2 ^ 53"
    by (simp add: channel_a_def)
  note g = channel_ratio_guard [OF default_catalog default_valid utf8_examples(3) l]
  have "sent (fst (channels_probe default_exporter healthy)) =
     [ratio_sample ''lnd'' channel_a (1 / 2), balance_sample ''lnd'' channel_a,
      balance_sample ''lnd'' channel_b]"
    using g by (simp add: realCapacity_channel_a realCapacity_channel_b ratio_channel_a)
  moreover have
    "(0 < realCapacity channel_a) = (0 < sint (Capacity channel_a) - sint (CommitFee channel_a)) \<and>
     realCapacity channel_a = float64_of_int (sint (Capacity channel_a) - sint (CommitFee channel_a))"
    using g b by blast
  ultimately show ?thesis
    using default_catalog default_valid utf8_examples(3) l b by blast
qed

text \<open>
  C4, as stated, fails where \<^verbatim>\<open>float64\<close> rounds: capacity \<open>2\<^sup>5\<^sup>3 + 1\<close> and commit fee
  \<open>2\<^sup>5\<^sup>3\<close> differ by 1, yet both convert to \<open>2\<^sup>5\<^sup>3\<close>, the guard sees 0, and the scrape
  sends the balance sample alone.
\<close>

theorem ratio_lost_to_rounding:
  "0 < sint (Capacity channel_big) - sint (CommitFee channel_big) \<and>
   map (fqName \<circ> desc)
     (sent (fst (channels_probe default_exporter
        (healthy\<lparr>ListChannels := Inr \<lparr>Channels = [channel_big]\<rparr>\<rparr>)))) =
     [''lnd_channel_balance_sats'']"
proof -
  have l: "ListChannels (healthy\<lparr>ListChannels := Inr \<lparr>Channels = [channel_big]\<rparr>\<rparr>) =
      Inr \<lparr>Channels = [channel_big]\<rparr>"
    by simp
  have "utf8_channel channel_big"
    by (simp add: utf8_channel_def channel_big_def ValidString_ascii)
  then have u: "utf8_answers (healthy\<lparr>ListChannels := Inr \<lparr>Channels = [channel_big]\<rparr>\<rparr>)"
    using utf8_examples(3) by (simp add: utf8_answers_def)
  from sent_channels_probe [OF default_catalog default_valid u] show ?thesis
    by (simp add: l answered_def channels_metrics_def realCapacity_big big_capacity big_fee
        balance_sample_def fqName_newGlobalMetric)
qed

subsection \<open>Release of the lock and the connection\<close>

text \<open>
  C5. Whatever happens in a scrape (for every exporter, also one whose catalog makes
  \<^verbatim>\<open>Collect\<close> panic, and for every answer of the node, deadline errors among them), the
  trace begins with the lock being taken and ends with its release; when a connection was
  established, the deadline is cancelled and that connection is closed right before the
  release. Between the two ends there is no other locking, release, cancellation or close.
\<close>

theorem Collect_releases:
  "\<exists>pre. fst (Collect c w) =
       Lock # pre @
       (case snd (getGrpcClient w (rpcAddr c) (tlsCertPath c) (macaroonPath c)) of
          Inl err \<Rightarrow> [Unlock]
        | Inr con \<Rightarrow> [Cancel, Close con, Unlock]) \<and>
     Lock \<notin> set pre \<and> Unlock \<notin> set pre \<and> Cancel \<notin> set pre \<and> (\<forall>k. Close k \<notin> set pre)"
proof -
  let ?g = "getGrpcClient w (rpcAddr c) (tlsCertPath c) (macaroonPath c)"
  obtain tail where t: "list_all probe_event tail"
    and tr: "fst (Collect c w) =
       Lock # Defer Unlock # fst ?g @
       (case snd ?g of
          Inl err \<Rightarrow> tail @ [Unlock]
        | Inr con \<Rightarrow> Defer (Close con) # WithTimeout (15 * Second) # Defer Cancel # tail @
            [Cancel, Close con, Unlock])"
    using Collect_shape by blast
  have d: "list_all dial_event (fst ?g)"
    by (rule getGrpcClient_events)
  have q1: "Lock \<notin> set tail \<and> Unlock \<notin> set tail \<and> Cancel \<notin> set tail \<and> (\<forall>k. Close k \<notin> set tail)"
    using t by (auto simp: list_all_iff)
  have q2: "Lock \<notin> set (fst ?g) \<and> Unlock \<notin> set (fst ?g) \<and> Cancel \<notin> set (fst ?g) \<and>
      (\<forall>k. Close k \<notin> set (fst ?g))"
    using d by (auto simp: list_all_iff)
  show ?thesis
  proof (cases "snd ?g")
    case (Inl err)
    show ?thesis
      using tr q1 q2 Inl by (intro exI [of _ "Defer Unlock # fst ?g @ tail"]) simp
  next
    case (Inr con)
    show ?thesis
      using tr q1 q2 Inr
      by (intro exI [of _ "Defer Unlock # fst ?g @
            Defer (Close con) # WithTimeout (15 * Second) # Defer Cancel # tail"]) simp
  qed
qed

theorem Collect_releases_witness:
  "\<exists>pre. fst (Collect default_exporter status_only) =
       Lock # pre @ [Cancel, Close (ClientConn ''localhost:10009''), Unlock] \<and>
     Lock \<notin> set pre \<and> Unlock \<notin> set pre \<and> Cancel \<notin> set pre \<and> (\<forall>k. Close k \<notin> set pre)"
proof -
  have "snd (getGrpcClient status_only (rpcAddr default_exporter) (tlsCertPath default_exporter)
     (macaroonPath default_exporter)) = Inr (ClientConn ''localhost:10009'')"
    by (simp add: getGrpcClient_def status_only_def offline_def default_exporter_def
        NewLightningExporter_def)
  with Collect_releases [of default_exporter status_only] show ?thesis
    by simp
qed

subsection \<open>Describe\<close>

text \<open>
  C6, as amended. For an exporter that holds the constructor's catalog, every sequence that a
  call of \<^verbatim>\<open>Describe\<close> may send consists of the same 20 descriptors, each once: the
  set is fixed, full and not empty, whatever call it is. \<^verbatim>\<open>Collect\<close> takes the exporter
  and yields a trace and an ending, never an exporter, and no other operation exists: nothing
  changes the catalog after the constructor, so the set does not depend on any scrape. The
  order of the sequence is not fixed.
\<close>

theorem Describe_fixed_set:
  assumes "metrics c = catalog ns" and "Describe c ds"
  shows "mset ds = mset (map snd (catalog ns)) \<and> set ds = snd ` set (catalog ns) \<and>
    length ds = 20 \<and> distinct ds \<and> ds \<noteq> [] \<and> Describe c (map snd (catalog ns))"
proof -
  have m: "mset ds = mset (map snd (catalog ns))"
    using assms by (simp add: Describe_def)
  then have "set ds = set (map snd (catalog ns))"
    by (rule mset_eq_setD)
  moreover have "length ds = length (map snd (catalog ns))"
    using m by (rule mset_eq_length)
  moreover have "distinct ds"
    using m distinct_catalog [of ns] by (metis mset_eq_imp_distinct_iff)
  ultimately show ?thesis
    using m assms(1) by (auto simp: length_catalog Describe_def)
qed

theorem Describe_fixed_set_witness:
  "metrics default_exporter = catalog ''lnd'' \<and>
   Describe default_exporter (rev (map snd (catalog ''lnd''))) \<and>
   mset (rev (map snd (catalog ''lnd''))) = mset (map snd (catalog ''lnd'')) \<and>
   set (rev (map snd (catalog ''lnd''))) = snd ` set (catalog ''lnd'') \<and>
   length (rev (map snd (catalog ''lnd''))) = 20 \<and>
   distinct (rev (map snd (catalog ''lnd''))) \<and>
   rev (map snd (catalog ''lnd'')) \<noteq> [] \<and>
   Describe default_exporter (map snd (catalog ''lnd''))"
proof -
  have d: "Describe default_exporter (rev (map snd (catalog ''lnd'')))"
    by (simp add: Describe_def default_catalog)
  from Describe_fixed_set [OF default_catalog d] show ?thesis
    using default_catalog d by (elim conjE, intro conjI) assumption+
qed

text \<open>
  C6, as stated, fails on the order: \<^verbatim>\<open>Describe\<close> ranges over a Go map, so the
  descriptors may come in the order of the constructor's literal in one call and in the
  reverse order in another, and these two sequences differ.
\<close>

theorem Describe_order_not_fixed:
  "Describe default_exporter (map snd (catalog ''lnd'')) \<and>
   Describe default_exporter (rev (map snd (catalog ''lnd''))) \<and>
   map snd (catalog ''lnd'') \<noteq> rev (map snd (catalog ''lnd''))"
proof -
  have "hd (map (fqName \<circ> snd) (catalog ''lnd'')) \<noteq> hd (rev (map (fqName \<circ> snd) (catalog ''lnd'')))"
    unfolding catalog_names by simp
  then have "map (fqName \<circ> snd) (catalog ''lnd'') \<noteq> rev (map (fqName \<circ> snd) (catalog ''lnd''))"
    by metis
  then have "map fqName (map snd (catalog ''lnd'')) \<noteq> map fqName (rev (map snd (catalog ''lnd'')))"
    by (simp add: rev_map)
  then have "map snd (catalog ''lnd'') \<noteq> rev (map snd (catalog ''lnd''))"
    by metis
  then show ?thesis
    by (simp add: Describe_def default_catalog)
qed

subsection \<open>The forwarding flag\<close>

text \<open>
  C7. The forwarding-history probe is gated by the flag \<^verbatim>\<open>exportPaymentMetrics\<close>: with the
  flag off a scrape (of a well-formed exporter, on a node whose strings are valid UTF-8) makes
  no \<^verbatim>\<open>ForwardingHistory\<close> call and sends no forwarding sample;
  with the flag on, a scrape that reaches its probes (connection established, status call
  answered) makes the call once and, when it is answered, sends one sample for each event.
\<close>

theorem forwarding_probe_gated:
  assumes "metrics c = catalog ns" and "descriptors_valid c" and "utf8_answers w"
  shows "count_list (calls (fst (Collect c w))) ForwardingHistoryRequest =
      (if exportPaymentMetrics c \<and>
          \<not> isl (snd (getGrpcClient w (rpcAddr c) (tlsCertPath c) (macaroonPath c))) \<and>
          \<not> isl (GetInfo w)
       then 1 else 0) \<and>
    length (filter (from_probe ns ForwardingHistoryRequest) (sent (fst (Collect c w)))) =
      (if exportPaymentMetrics c \<and>
          \<not> isl (snd (getGrpcClient w (rpcAddr c) (tlsCertPath c) (macaroonPath c))) \<and>
          \<not> isl (GetInfo w)
       then (case ForwardingHistory w of Inl err \<Rightarrow> 0 | Inr r \<Rightarrow> length (ForwardingEvents r))
       else 0)"
proof (cases "isl (snd (getGrpcClient w (rpcAddr c) (tlsCertPath c) (macaroonPath c))) \<or> isl (GetInfo w)")
  case True
  from calls_not_probing [OF assms(1,2) True] show ?thesis
    using True by (auto simp: liveness_origin)
next
  case False
  then obtain evs con stats
    where g: "getGrpcClient w (rpcAddr c) (tlsCertPath c) (macaroonPath c) = (evs, Inr con)"
      and i: "GetInfo w = Inr stats"
    by (cases "getGrpcClient w (rpcAddr c) (tlsCertPath c) (macaroonPath c)";
        cases "snd (getGrpcClient w (rpcAddr c) (tlsCertPath c) (macaroonPath c))";
        cases "GetInfo w") auto
  have other:
    "filter (from_probe ns ForwardingHistoryRequest) (info_metrics ns stats) = []"
    "filter (from_probe ns ForwardingHistoryRequest)
       (answered (wallet_metrics ns) (WalletBalance w)) = []"
    "filter (from_probe ns ForwardingHistoryRequest)
       (answered (pending_metrics ns) (PendingChannels w)) = []"
    "filter (from_probe ns ForwardingHistoryRequest)
       (answered (channels_balance_metrics ns) (ChannelBalance w)) = []"
    "filter (from_probe ns ForwardingHistoryRequest)
       (answered (network_metrics ns) (GetNetworkInfo w)) = []"
    "filter (from_probe ns ForwardingHistoryRequest)
       (answered (channels_metrics ns) (ListChannels w)) = []"
    "filter (from_probe ns ForwardingHistoryRequest)
       (answered (peers_metrics ns) (ListPeers w)) = []"
    by (simp_all add: filter_origin_other [OF info_metrics_origin]
        filter_origin_other [OF wallet_metrics_origin]
        filter_origin_other [OF pending_metrics_origin]
        filter_origin_other [OF channels_balance_metrics_origin]
        filter_origin_other [OF network_metrics_origin]
        filter_origin_other [OF channels_metrics_origin]
        filter_origin_other [OF peers_metrics_origin])
  have own: "filter (from_probe ns ForwardingHistoryRequest)
       (answered (forwarding_metrics ns) (ForwardingHistory w)) =
      answered (forwarding_metrics ns) (ForwardingHistory w)"
    using forwarding_metrics_origin by (rule filter_origin_same)
  show ?thesis
    using False
    by (simp add: calls_probing [OF assms g i] sent_probing [OF assms g i] other own
        liveness_origin length_forwarding_metrics)
qed

theorem forwarding_probe_gated_witness:
  "metrics default_exporter = catalog ''lnd'' \<and> descriptors_valid default_exporter \<and>
   utf8_answers healthy \<and>
   count_list (calls (fst (Collect default_exporter healthy))) ForwardingHistoryRequest = 1 \<and>
   length (filter (from_probe ''lnd'' ForwardingHistoryRequest)
     (sent (fst (Collect default_exporter healthy)))) = 1 \<and>
   count_list (calls (fst (Collect (default_exporter\<lparr>exportPaymentMetrics := False\<rparr>) healthy)))
     ForwardingHistoryRequest = 0 \<and>
   length (filter (from_probe ''lnd'' ForwardingHistoryRequest)
     (sent (fst (Collect (default_exporter\<lparr>exportPaymentMetrics := False\<rparr>) healthy)))) = 0"
proof -
  have off: "metrics (default_exporter\<lparr>exportPaymentMetrics := False\<rparr>) = catalog ''lnd''"
    by (simp add: default_catalog)
  have off': "descriptors_valid (default_exporter\<lparr>exportPaymentMetrics := False\<rparr>)"
    using default_valid by (simp add: descriptors_valid_def)
  show ?thesis
    using forwarding_probe_gated [OF default_catalog default_valid utf8_examples(3)]
      forwarding_probe_gated [OF off off' utf8_examples(3)]
      default_valid utf8_examples(3)
    by (simp add: getGrpcClient_def healthy_def status_only_def offline_def default_exporter_def
        NewLightningExporter_def)
qed

text \<open>The constructor has no parameter for the flag: it always sets it.\<close>

lemma NewLightningExporter_exportPaymentMetrics:
  "exportPaymentMetrics (NewLightningExporter ns addr tls mac t p)"
  by (simp add: NewLightningExporter_def)

subsection \<open>No panic\<close>

text \<open>
  C8, as amended. \<^verbatim>\<open>Collect\<close> does not panic on a well-formed exporter and a node whose
  strings are valid UTF-8: for an exporter that holds the constructor's catalog with no
  descriptor carrying an error, and whatever the files, the dialer and the node answer within
  UTF-8, it returns to its caller, and every sample it has sent carries as many label values as
  its descriptor has label names. Of the four panics of \<^verbatim>\<open>MustNewConstMetric\<close>, the missing
  descriptor and the label count are excluded by the code of the exporter alone; the other two
  by these two conditions.
\<close>

theorem Collect_never_panics:
  assumes "metrics c = catalog ns" and "descriptors_valid c" and "utf8_answers w"
  shows "snd (Collect c w) = Return \<and> list_all consistent (sent (fst (Collect c w)))"
  using Collect_returns [OF assms] Collect_sent_consistent [of c w] by simp

theorem Collect_never_panics_witness:
  "metrics default_exporter = catalog ''lnd'' \<and> descriptors_valid default_exporter \<and>
   utf8_answers healthy \<and>
   snd (Collect default_exporter healthy) = Return \<and>
   list_all consistent (sent (fst (Collect default_exporter healthy)))"
  using Collect_never_panics [OF default_catalog default_valid utf8_examples(3)]
    default_catalog default_valid utf8_examples(3)
  by simp

text \<open>
  C8, as stated (for every input), fails: the constructor accepts any namespace, and with the
  namespace \<^verbatim>\<open>lnd-1\<close> every descriptor of the catalog carries the error of an invalid metric
  name, so that the first sample of a scrape, here the liveness sample of a scrape that cannot
  load its credentials, makes \<^verbatim>\<open>Collect\<close> panic. (In the program, \<^verbatim>\<open>MustRegister\<close> refuses this
  exporter when \<^verbatim>\<open>main\<close> starts, with the same error.)
\<close>

theorem Collect_panics_on_invalid_namespace:
  "metrics hyphen_exporter = catalog ''lnd-1'' \<and>
   Collect hyphen_exporter offline =
     ([Lock, Defer Unlock, Log ''Cannot get node tls credentials no such file'',
       Log ''getGrpcClient() err: no such file'', Unlock],
      Panic (quote ''lnd-1_lnd_up'' @ '' is not a valid metric name''))"
  by (simp add: hyphen_exporter_def NewLightningExporter_def Collect_def Collect_body_def
      getGrpcClient_def offline_def lnd_up_def MustNewConstMetric_def metric_def catalog_lookup
      newGlobalMetric_def NewDesc_def IsValidMetricName_def isValidLegacyRune_def is_letter_def
      is_digit_def enumerate_eq_zip upt_rec send_def seq_def emit_def logf_def skip_def
      return_def)

text \<open>
  So does a label value that is not UTF-8: the well-formed exporter panics at the first sample
  of the node status when the alias is the byte \<^verbatim>\<open>0xFF\<close>. (The decoding of the node's answer
  refuses such a string before \<^verbatim>\<open>Collect\<close> sees it.)
\<close>

lemma Collect_panics_on_invalid_label:
  "snd (Collect default_exporter garbled) =
     Panic (''label value '' @ quote [CHR 0xFF] @ '' is not valid UTF-8'')"
proof -
  have "err_desc (newGlobalMetric ''lnd'' ''instance_info'' ''instance_info''
      [''alias'', ''pubkey'', ''version'']) = None"
    by (rule valid_catalog [OF default_catalog default_valid])
  then show ?thesis
    by (simp add: Collect_def Collect_body_def getGrpcClient_def garbled_def status_only_def
        offline_def default_exporter_def NewLightningExporter_def info_samples_def
        MustNewConstMetric_def metric_def catalog_lookup variableLabels_newGlobalMetric
        ValidString_def first_def send_def seq_def emit_def logf_def skip_def return_def
        split: prod.splits)
qed

text \<open>
  The nil descriptor is a branch of the model as well: an exporter whose map lacks the liveness
  descriptor panics when the credentials cannot be loaded, and still releases the lock.
\<close>

lemma Collect_panics_without_catalog:
  "Collect (default_exporter\<lparr>metrics := []\<rparr>) offline =
     ([Lock, Defer Unlock, Log ''Cannot get node tls credentials no such file'',
       Log ''getGrpcClient() err: no such file'', Unlock],
      Panic ''invalid memory address or nil pointer dereference'')"
  by (simp add: Collect_def Collect_body_def getGrpcClient_def offline_def lnd_up_def
      MustNewConstMetric_def metric_def send_def seq_def emit_def logf_def skip_def return_def)

subsection \<open>Concurrent scrapes\<close>

text \<open>
  C9. Two concurrent scrapes on one exporter are serialized by its mutex. Whatever the
  scheduler does, at every moment what has happened so far is a beginning of one scrape's whole
  trace followed by the other's: no event of the second scrape, its dial and its calls among
  them, comes before the first has released the lock, however the first ends. When both are
  through, the history is one whole trace after the other, each scrape with its own events on
  its own answers of the node. A scrape that finds the mutex locked only waits: as long as
  something is left to do, some scrape can move, so the wait ends.
\<close>

theorem scrapes_serialized:
  assumes "run sched (start c w1 w2) = Some (locked, rest, tr)"
  shows "(prefix tr (tag Scrape1 (fst (Collect c w1)) @ tag Scrape2 (fst (Collect c w2))) \<or>
      prefix tr (tag Scrape2 (fst (Collect c w2)) @ tag Scrape1 (fst (Collect c w1)))) \<and>
    (rest Scrape1 = [] \<and> rest Scrape2 = [] \<longrightarrow>
      tr = tag Scrape1 (fst (Collect c w1)) @ tag Scrape2 (fst (Collect c w2)) \<or>
      tr = tag Scrape2 (fst (Collect c w2)) @ tag Scrape1 (fst (Collect c w1))) \<and>
    (rest Scrape1 \<noteq> [] \<or> rest Scrape2 \<noteq> [] \<longrightarrow>
      (\<exists>i s'. advance i (locked, rest, tr) = Some s'))"
proof -
  have inv: "serial (scrapes c w1 w2) (locked, rest, tr)"
    using run_serial [of "scrapes c w1 w2", OF scrapes_section serial_start] assms
    by (simp add: start_def)
  have p: "scrapes c w1 w2 Scrape1 = fst (Collect c w1)"
    "scrapes c w1 w2 Scrape2 = fst (Collect c w2)"
    by (simp_all add: scrapes_def)
  show ?thesis
    using serial_prefix [OF inv] serial_complete [OF inv]
      serial_progress [of "scrapes c w1 w2", OF scrapes_section inv]
    unfolding p by blast
qed

theorem scrapes_serialized_witness:
  "run [Scrape2, Scrape2] (start default_exporter offline offline) =
     Some (True,
       (scrapes default_exporter offline offline)
         (Scrape2 := [Log ''Cannot get node tls credentials no such file'',
            Log ''getGrpcClient() err: no such file'', Send (liveness ''lnd'' 0), Unlock]),
       [(Scrape2, Lock), (Scrape2, Defer Unlock)]) \<and>
   advance Scrape1 (True,
       (scrapes default_exporter offline offline)
         (Scrape2 := [Log ''Cannot get node tls credentials no such file'',
            Log ''getGrpcClient() err: no such file'', Send (liveness ''lnd'' 0), Unlock]),
       [(Scrape2, Lock), (Scrape2, Defer Unlock)]) = None \<and>
   (prefix [(Scrape2, Lock), (Scrape2, Defer Unlock)]
      (tag Scrape1 (fst (Collect default_exporter offline)) @
       tag Scrape2 (fst (Collect default_exporter offline))) \<or>
    prefix [(Scrape2, Lock), (Scrape2, Defer Unlock)]
      (tag Scrape2 (fst (Collect default_exporter offline)) @
       tag Scrape1 (fst (Collect default_exporter offline)))) \<and>
   (\<exists>i s'. advance i (True,
       (scrapes default_exporter offline offline)
         (Scrape2 := [Log ''Cannot get node tls credentials no such file'',
            Log ''getGrpcClient() err: no such file'', Send (liveness ''lnd'' 0), Unlock]),
       [(Scrape2, Lock), (Scrape2, Defer Unlock)]) = Some s')"
proof -
  let ?rest = "(scrapes default_exporter offline offline)
         (Scrape2 := [Log ''Cannot get node tls credentials no such file'',
            Log ''getGrpcClient() err: no such file'', Send (liveness ''lnd'' 0), Unlock])"
  have r: "run [Scrape2, Scrape2] (start default_exporter offline offline) =
     Some (True, ?rest, [(Scrape2, Lock), (Scrape2, Defer Unlock)])"
    by (simp add: start_def scrapes_def offline_trace)
  have b: "advance Scrape1 (True, ?rest, [(Scrape2, Lock), (Scrape2, Defer Unlock)]) = None"
    by (simp add: scrapes_def offline_trace)
  have n: "?rest Scrape1 \<noteq> [] \<or> ?rest Scrape2 \<noteq> []"
    by simp
  from scrapes_serialized [OF r] n r b show ?thesis
    by blast
qed

subsection \<open>The timeout field\<close>

text \<open>
  C10. \<^verbatim>\<open>Collect\<close> does not depend on the stored timeout: two exporters that differ in
  that field only (in particular two built by the constructor from different timeouts) produce
  the same trace and end the same way on the same node, and the one deadline a scrape binds,
  once its connection is established, is the constant 15 seconds.
\<close>

theorem Collect_ignores_timeout:
  "Collect (c\<lparr>timeout := t\<rparr>) w = Collect c w \<and>
   Collect (NewLightningExporter ns addr tls mac t1 p) w =
     Collect (NewLightningExporter ns addr tls mac t2 p) w \<and>
   deadlines (fst (Collect c w)) =
     (case snd (getGrpcClient w (rpcAddr c) (tlsCertPath c) (macaroonPath c)) of
        Inl err \<Rightarrow> [] | Inr con \<Rightarrow> [15 * Second])"
proof -
  have a: "Collect (c\<lparr>timeout := t\<rparr>) w = Collect c w" for c t
    by (simp add: Collect_def Collect_body_timeout)
  have "NewLightningExporter ns addr tls mac t1 p =
      (NewLightningExporter ns addr tls mac t2 p)\<lparr>timeout := t1\<rparr>"
    by (simp add: NewLightningExporter_def)
  then have b: "Collect (NewLightningExporter ns addr tls mac t1 p) w =
     Collect (NewLightningExporter ns addr tls mac t2 p) w"
    using a by simp
  let ?g = "getGrpcClient w (rpcAddr c) (tlsCertPath c) (macaroonPath c)"
  obtain tail where tl: "list_all probe_event tail"
    and tr: "fst (Collect c w) =
       Lock # Defer Unlock # fst ?g @
       (case snd ?g of
          Inl err \<Rightarrow> tail @ [Unlock]
        | Inr con \<Rightarrow> Defer (Close con) # WithTimeout (15 * Second) # Defer Cancel # tail @
            [Cancel, Close con, Unlock])"
    using Collect_shape by blast
  have "deadlines (fst (Collect c w)) = (case snd ?g of Inl err \<Rightarrow> [] | Inr con \<Rightarrow> [15 * Second])"
    unfolding tr
    by (simp add: deadlines_append deadlines_dial [OF getGrpcClient_events]
        deadlines_probe [OF tl] split: sum.splits)
  with a b show ?thesis by simp
qed

theorem Collect_ignores_timeout_witness:
  "Collect (default_exporter\<lparr>timeout := 1\<rparr>) healthy = Collect default_exporter healthy \<and>
   Collect (NewLightningExporter ''lnd'' ''localhost:10009'' ''/root/.lnd'' [] 1 True) healthy =
     Collect (NewLightningExporter ''lnd'' ''localhost:10009'' ''/root/.lnd'' [] 2 True) healthy \<and>
   deadlines (fst (Collect default_exporter healthy)) = [15 * Second]"
proof -
  have "snd (getGrpcClient healthy (rpcAddr default_exporter) (tlsCertPath default_exporter)
     (macaroonPath default_exporter)) = Inr (ClientConn ''localhost:10009'')"
    by (simp add: getGrpcClient_def healthy_def status_only_def offline_def default_exporter_def
        NewLightningExporter_def)
  with Collect_ignores_timeout [where c = default_exporter and t = 1 and w = healthy
      and ns = "''lnd''" and addr = "''localhost:10009''" and tls = "''/root/.lnd''"
      and mac = "[]" and ?t1.0 = 1 and ?t2.0 = 2 and p = True]
  show ?thesis by simp
qed

end
